theory Spec2Isabelle
  imports Complex_Main
begin

section \<open>JavaScript values used by the storefront page\<close>

text \<open>
  The price inputs hold JavaScript numbers.  The handlers obtain them with
  \<^verbatim>\<open>parseInt\<close>, whose result is a not-a-number value, an infinity (for a digit
  string beyond the range of a double) or an integer-valued double.  The model keeps
  these four cases; a finite value is the mathematical integer it denotes (the sign of a
  zero is not observable by \<^verbatim>\<open>Math.min\<close>, \<^verbatim>\<open>Math.max\<close> followed by printing).
\<close>

datatype jsnum = NaN | NegInf | Fin int | PosInf

text \<open>The comparison \<^verbatim>\<open>a <= b\<close>: false as soon as one side is not a number.\<close>

fun js_le :: "jsnum \<Rightarrow> jsnum \<Rightarrow> bool" where
  "js_le NaN b = False"
| "js_le a NaN = False"
| "js_le NegInf b = True"
| "js_le a PosInf = True"
| "js_le (Fin a) (Fin b) = (a \<le> b)"
| "js_le PosInf b = False"
| "js_le a NegInf = False"

definition isNaN :: "jsnum \<Rightarrow> bool" where
  "isNaN v = (v = NaN)"

text \<open>\<^verbatim>\<open>Math.min\<close> and \<^verbatim>\<open>Math.max\<close> of two arguments: not-a-number is contagious.\<close>

definition Math_min :: "jsnum \<Rightarrow> jsnum \<Rightarrow> jsnum" where
  "Math_min a b = (if isNaN a \<or> isNaN b then NaN else if js_le a b then a else b)"

definition Math_max :: "jsnum \<Rightarrow> jsnum \<Rightarrow> jsnum" where
  "Math_max a b = (if isNaN a \<or> isNaN b then NaN else if js_le a b then b else a)"

text \<open>Truthiness of a string and of a string-or-null, as the \<^verbatim>\<open>if (x)\<close> tests use it.\<close>

definition truthy :: "string \<Rightarrow> bool" where
  "truthy s = (s \<noteq> [])"

fun truthy_opt :: "string option \<Rightarrow> bool" where
  "truthy_opt None = False"
| "truthy_opt (Some s) = truthy s"

section \<open>Store hours (Home.jsx, header)\<close>

text \<open>
  \<^verbatim>\<open>new Date()\<close> is a time value in milliseconds since the epoch together with the
  offset of the local zone; \<^verbatim>\<open>getHours\<close> and \<^verbatim>\<open>getDay\<close> read the local hour of
  the day and the local day of the week (0 is Sunday; the epoch fell on a Thursday).
\<close>

record date =
  time_value :: int
  zone_offset :: int

definition local_time :: "date \<Rightarrow> int" where
  "local_time d = time_value d + zone_offset d"

definition getHours :: "date \<Rightarrow> nat" where
  "getHours d = nat ((local_time d div 3600000) mod 24)"

definition getDay :: "date \<Rightarrow> nat" where
  "getDay d = nat ((local_time d div 86400000 + 4) mod 7)"

definition days :: "string list" where
  "days = [''Sunday'', ''Monday'', ''Tuesday'', ''Wednesday'', ''Thursday'', ''Friday'',
           ''Saturday'']"

text \<open>
  The eight immediately-invoked functions of the two banners, in source order: four of
  the desktop banner (lines 135 to 166) and four of the mobile banner (lines 201 to
  232).  Each one reads the clock and computes \<^verbatim>\<open>isOpen\<close> for itself.
\<close>

definition desktop_frame :: "date \<Rightarrow> string" where
  "desktop_frame now =
     (let currentHour = getHours now;
          isSunday = (getDay now = 0);
          isOpen = ((isSunday \<and> currentHour \<ge> 8 \<and> currentHour < 14)
                    \<or> (\<not> isSunday \<and> currentHour \<ge> 8 \<and> currentHour < 20))
      in if isOpen
         then ''bg-gradient-to-r from-orange-500/10 to-amber-500/10 border-orange-500/20''
         else ''bg-gradient-to-r from-gray-500/5 to-gray-500/5 border-gray-500/20 opacity-50'')"

definition desktop_dot :: "date \<Rightarrow> string" where
  "desktop_dot now =
     (let currentHour = getHours now;
          isSunday = (getDay now = 0);
          isOpen = ((isSunday \<and> currentHour \<ge> 8 \<and> currentHour < 14)
                    \<or> (\<not> isSunday \<and> currentHour \<ge> 8 \<and> currentHour < 20))
      in if isOpen then ''bg-green-500 animate-pulse'' else ''bg-red-500'')"

definition desktop_tone :: "date \<Rightarrow> string" where
  "desktop_tone now =
     (let currentHour = getHours now;
          isSunday = (getDay now = 0);
          isOpen = ((isSunday \<and> currentHour \<ge> 8 \<and> currentHour < 14)
                    \<or> (\<not> isSunday \<and> currentHour \<ge> 8 \<and> currentHour < 20))
      in if isOpen then ''text-orange-400'' else ''text-gray-400'')"

definition desktop_label :: "date \<Rightarrow> string" where
  "desktop_label now =
     (let currentHour = getHours now;
          isSunday = (getDay now = 0);
          isOpen = ((isSunday \<and> currentHour \<ge> 8 \<and> currentHour < 14)
                    \<or> (\<not> isSunday \<and> currentHour \<ge> 8 \<and> currentHour < 20))
      in if isOpen then ''Store Hours - '' @ days ! getDay now else ''CLOSED'')"

definition mobile_frame :: "date \<Rightarrow> string" where
  "mobile_frame now =
     (let currentHour = getHours now;
          isSunday = (getDay now = 0);
          isOpen = ((isSunday \<and> currentHour \<ge> 8 \<and> currentHour < 14)
                    \<or> (\<not> isSunday \<and> currentHour \<ge> 8 \<and> currentHour < 20))
      in if isOpen
         then ''bg-gradient-to-r from-orange-500/10 to-amber-500/10 border-orange-500/20''
         else ''bg-gradient-to-r from-gray-500/5 to-gray-500/5 border-gray-500/20 opacity-50'')"

definition mobile_dot :: "date \<Rightarrow> string" where
  "mobile_dot now =
     (let currentHour = getHours now;
          isSunday = (getDay now = 0);
          isOpen = ((isSunday \<and> currentHour \<ge> 8 \<and> currentHour < 14)
                    \<or> (\<not> isSunday \<and> currentHour \<ge> 8 \<and> currentHour < 20))
      in if isOpen then ''bg-green-500 animate-pulse'' else ''bg-red-500'')"

definition mobile_tone :: "date \<Rightarrow> string" where
  "mobile_tone now =
     (let currentHour = getHours now;
          isSunday = (getDay now = 0);
          isOpen = ((isSunday \<and> currentHour \<ge> 8 \<and> currentHour < 14)
                    \<or> (\<not> isSunday \<and> currentHour \<ge> 8 \<and> currentHour < 20))
      in if isOpen then ''text-orange-400'' else ''text-gray-400'')"

definition mobile_label :: "date \<Rightarrow> string" where
  "mobile_label now =
     (let currentHour = getHours now;
          isSunday = (getDay now = 0);
          isOpen = ((isSunday \<and> currentHour \<ge> 8 \<and> currentHour < 14)
                    \<or> (\<not> isSunday \<and> currentHour \<ge> 8 \<and> currentHour < 20))
      in if isOpen then days ! getDay now else ''CLOSED'')"

text \<open>
  The condition in the words of the specification, as a function of the day of the week
  and the hour alone.
\<close>

definition isOpenAt :: "nat \<Rightarrow> nat \<Rightarrow> bool" where
  "isOpenAt day hour =
     ((day = 0 \<and> 8 \<le> hour \<and> hour < 14) \<or> (day \<noteq> 0 \<and> 8 \<le> hour \<and> hour < 20))"

section \<open>State of the Home component (Home.jsx, lines 19 to 31)\<close>

text \<open>
  \<^verbatim>\<open>priceRange\<close> is a two-element array.  React compares the dependencies of an
  effect with \<^verbatim>\<open>Object.is\<close>: strings and null by value, an array by identity.  The
  model therefore gives every array the number under which it was allocated, so that
  equality of two \<open>price_array\<close> values is equality of references.
\<close>

record price_array =
  ident :: nat
  elem0 :: jsnum
  elem1 :: jsnum

record filters =
  searchQuery :: string
  selectedCategory :: "string option"
  priceRange :: price_array
  stockStatus :: "string option"
  sortBy :: string

text \<open>A product as the data model of the specification describes it.\<close>

record product =
  pid :: nat
  name :: string
  description :: string
  price :: rat
  stock :: int
  category :: string
  imageUrl :: string
  created :: nat

text \<open>
  The query string is the list of the appended pairs.  \<^verbatim>\<open>append\<close> prints a number;
  the model keeps the value that is printed.
\<close>

datatype pvalue = Str string | Num jsnum

type_synonym query = "(string \<times> pvalue) list"

text \<open>
  Besides the React state the record holds what the component does to its
  environment: the toasts and console lines it has produced, the pending timeout of the
  debounce effect (its due time and the filter values its closure has captured), the
  requests that await a response, the log of the product requests sent (with the time
  of sending), the clock, and the counters of the array and request identities.
\<close>

record home =
  products :: "product list"
  filt :: filters
  loading :: bool
  toasts :: "string list"
  console :: "string list"
  debounce :: "(nat \<times> filters) option"
  inflight :: "(nat \<times> query) list"
  issued :: "(nat \<times> query) list"
  clock :: nat
  next_ident :: nat
  next_request :: nat

subsection \<open>State setters\<close>

definition setSearchQuery :: "string \<Rightarrow> home \<Rightarrow> home" where
  "setSearchQuery v s = s\<lparr>filt := (filt s)\<lparr>searchQuery := v\<rparr>\<rparr>"

definition setSelectedCategory :: "string option \<Rightarrow> home \<Rightarrow> home" where
  "setSelectedCategory v s = s\<lparr>filt := (filt s)\<lparr>selectedCategory := v\<rparr>\<rparr>"

definition setPriceRange :: "price_array \<Rightarrow> home \<Rightarrow> home" where
  "setPriceRange v s = s\<lparr>filt := (filt s)\<lparr>priceRange := v\<rparr>\<rparr>"

definition setStockStatus :: "string option \<Rightarrow> home \<Rightarrow> home" where
  "setStockStatus v s = s\<lparr>filt := (filt s)\<lparr>stockStatus := v\<rparr>\<rparr>"

definition setSortBy :: "string \<Rightarrow> home \<Rightarrow> home" where
  "setSortBy v s = s\<lparr>filt := (filt s)\<lparr>sortBy := v\<rparr>\<rparr>"

definition setProducts :: "product list \<Rightarrow> home \<Rightarrow> home" where
  "setProducts v s = s\<lparr>products := v\<rparr>"

definition setLoading :: "bool \<Rightarrow> home \<Rightarrow> home" where
  "setLoading v s = s\<lparr>loading := v\<rparr>"

text \<open>An array literal \<^verbatim>\<open>[a, b]\<close> allocates a new array.\<close>

definition array_literal :: "jsnum \<Rightarrow> jsnum \<Rightarrow> home \<Rightarrow> price_array \<times> home" where
  "array_literal a b s =
     (\<lparr>ident = next_ident s, elem0 = a, elem1 = b\<rparr>, s\<lparr>next_ident := Suc (next_ident s)\<rparr>)"

subsection \<open>fetchProducts (lines 68 to 87)\<close>

text \<open>The parameters, lines 71 to 77.\<close>

definition fetch_query :: "filters \<Rightarrow> query" where
  "fetch_query f =
     (if truthy (searchQuery f) then [(''search'', Str (searchQuery f))] else [])
     @ (if truthy_opt (selectedCategory f)
        then [(''category'', Str (the (selectedCategory f)))] else [])
     @ [(''min_price'', Num (elem0 (priceRange f)))]
     @ [(''max_price'', Num (elem1 (priceRange f)))]
     @ (if truthy_opt (stockStatus f)
        then [(''stock_status'', Str (the (stockStatus f)))] else [])
     @ (if truthy (sortBy f) then [(''sort_by'', Str (sortBy f))] else [])"

text \<open>
  The part of \<^verbatim>\<open>fetchProducts\<close> that runs at the call, up to the \<^verbatim>\<open>await\<close>: the
  loading flag is raised and the request is sent.  The function reads the filter values
  of the render that created it, which are passed as \<open>f\<close>.
\<close>

definition fetchProducts :: "filters \<Rightarrow> home \<Rightarrow> home" where
  "fetchProducts f s =
     (let s1 = setLoading True s;
          params = fetch_query f
      in s1\<lparr>inflight := inflight s1 @ [(next_request s1, params)],
            issued := issued s1 @ [(clock s1, params)],
            next_request := Suc (next_request s1)\<rparr>)"

text \<open>
  The rest of \<^verbatim>\<open>fetchProducts\<close> runs when the request \<open>rid\<close> is answered: the
  \<^verbatim>\<open>try\<close> branch stores the data, the \<^verbatim>\<open>catch\<close> branch logs and shows a toast,
  and \<^verbatim>\<open>finally\<close> lowers the loading flag.  A request that is not in flight has no
  continuation.
\<close>

datatype response = Resolved "product list" | Rejected

definition settle :: "nat \<Rightarrow> response \<Rightarrow> home \<Rightarrow> home" where
  "settle rid r s =
     (if rid \<notin> fst ` set (inflight s) then s
      else let s1 = s\<lparr>inflight := filter (\<lambda>e. fst e \<noteq> rid) (inflight s)\<rparr>;
               s2 = (case r of
                       Resolved data \<Rightarrow> setProducts data s1
                     | Rejected \<Rightarrow>
                         s1\<lparr>console := console s1 @ [''Error fetching products:''],
                            toasts := toasts s1 @ [''Failed to load products'']\<rparr>)
           in setLoading False s2)"

subsection \<open>Event handlers of the page\<close>

text \<open>Line 103.  The five setters run in one handler, so React renders once after them.\<close>

definition resetFilters :: "home \<Rightarrow> home" where
  "resetFilters s =
     (let s1 = setSelectedCategory None s;
          (arr, s2) = array_literal (Fin 0) (Fin 10000) s1;
          s3 = setPriceRange arr s2;
          s4 = setStockStatus None s3;
          s5 = setSortBy ''newest'' s4
      in setSearchQuery [] s5)"

text \<open>Line 288: a click on the card of the category \<open>cat_name\<close>.\<close>

definition categoryClick :: "string \<Rightarrow> home \<Rightarrow> home" where
  "categoryClick cat_name s =
     setSelectedCategory
       (if selectedCategory (filt s) = Some cat_name then None else Some cat_name) s"

text \<open>Line 318: the slider hands a new array of its two values to the setter.\<close>

definition sliderChange :: "jsnum \<Rightarrow> jsnum \<Rightarrow> home \<Rightarrow> home" where
  "sliderChange a b s = (let (arr, s1) = array_literal a b s in setPriceRange arr s1)"

text \<open>
  Lines 330 to 335 and 347 to 352: the two price inputs; \<open>v\<close> is the result of
  \<^verbatim>\<open>parseInt(e.target.value)\<close>.
\<close>

definition minPriceChange :: "jsnum \<Rightarrow> home \<Rightarrow> home" where
  "minPriceChange v s =
     (if isNaN v then s
      else let clampedValue = Math_max (Fin 0) (Math_min v (elem1 (priceRange (filt s))));
               (arr, s1) = array_literal clampedValue (elem1 (priceRange (filt s))) s
           in setPriceRange arr s1)"

definition maxPriceChange :: "jsnum \<Rightarrow> home \<Rightarrow> home" where
  "maxPriceChange v s =
     (if isNaN v then s
      else let clampedValue = Math_max (elem0 (priceRange (filt s))) (Math_min v (Fin 10000));
               (arr, s1) = array_literal (elem0 (priceRange (filt s))) clampedValue s
           in setPriceRange arr s1)"

text \<open>The three items of the sort select, lines 402 to 404, with their values.\<close>

datatype sort_item = NewestFirst | PriceLowToHigh | PriceHighToLow

fun item_value :: "sort_item \<Rightarrow> string" where
  "item_value NewestFirst = ''newest''"
| "item_value PriceLowToHigh = ''price_asc''"
| "item_value PriceHighToLow = ''price_desc''"

text \<open>What the user can do to the filters, and the handler each action runs.\<close>

datatype action =
    SearchInput string
  | ClearSearch
  | CategoryCard string
  | SliderMove jsnum jsnum
  | MinPriceInput jsnum
  | MaxPriceInput jsnum
  | StockAll
  | StockInStock
  | StockLowStock
  | StockOutOfStock
  | SortSelect sort_item
  | ResetButton

fun handler :: "action \<Rightarrow> home \<Rightarrow> home" where
  "handler (SearchInput v) s = setSearchQuery v s"
| "handler ClearSearch s = setSearchQuery [] s"
| "handler (CategoryCard c) s = categoryClick c s"
| "handler (SliderMove a b) s = sliderChange a b s"
| "handler (MinPriceInput v) s = minPriceChange v s"
| "handler (MaxPriceInput v) s = maxPriceChange v s"
| "handler StockAll s = setStockStatus None s"
| "handler StockInStock s = setStockStatus (Some ''in_stock'') s"
| "handler StockLowStock s = setStockStatus (Some ''low_stock'') s"
| "handler StockOutOfStock s = setStockStatus (Some ''out_of_stock'') s"
| "handler (SortSelect i) s = setSortBy (item_value i) s"
| "handler ResetButton s = resetFilters s"

subsection \<open>The debounce effect (lines 89 to 94) and the passage of time\<close>

text \<open>
  After a handler React renders, and runs the effect again when one of its five
  dependencies is not the same as in the previous render: the cleanup clears the pending
  timeout and the body sets a new one, 300 later, whose callback calls the
  \<^verbatim>\<open>fetchProducts\<close> of this render.
\<close>

definition dispatch :: "action \<Rightarrow> home \<Rightarrow> home" where
  "dispatch a s =
     (let s1 = handler a s
      in if filt s1 = filt s then s1
         else s1\<lparr>debounce := Some (clock s1 + 300, filt s1)\<rparr>)"

text \<open>
  Time moves to \<open>t\<close>; a timeout that has become due fires at its due time.  The clock
  never runs backwards.
\<close>

definition advance :: "nat \<Rightarrow> home \<Rightarrow> home" where
  "advance t s =
     (if t < clock s then s
      else case debounce s of
             None \<Rightarrow> s\<lparr>clock := t\<rparr>
           | Some (due, f) \<Rightarrow>
               if due \<le> t
               then (fetchProducts f (s\<lparr>clock := due, debounce := None\<rparr>))\<lparr>clock := t\<rparr>
               else s\<lparr>clock := t\<rparr>)"

text \<open>
  The first render and its effects at time \<open>t\<close> (lines 34 to 38 and 89 to 94): the
  products are fetched at once and the debounce timeout is set as well.
\<close>

definition initial :: "nat \<Rightarrow> home" where
  "initial t =
     \<lparr>products = [],
      filt = \<lparr>searchQuery = [], selectedCategory = None,
              priceRange = \<lparr>ident = 0, elem0 = Fin 0, elem1 = Fin 10000\<rparr>,
              stockStatus = None, sortBy = ''newest''\<rparr>,
      loading = True, toasts = [], console = [], debounce = None,
      inflight = [], issued = [], clock = t, next_ident = 1, next_request = 0\<rparr>"

definition mount :: "nat \<Rightarrow> home" where
  "mount t =
     (let s1 = fetchProducts (filt (initial t)) (initial t)
      in s1\<lparr>debounce := Some (clock s1 + 300, filt s1)\<rparr>)"

text \<open>An event is a user action or the answer to a request; it happens at a time.\<close>

datatype event = User action | Answer nat response

fun step :: "event \<Rightarrow> home \<Rightarrow> home" where
  "step (User a) s = dispatch a s"
| "step (Answer rid r) s = settle rid r s"

definition occurs :: "nat \<Rightarrow> event \<Rightarrow> home \<Rightarrow> home" where
  "occurs t e s = step e (advance t s)"

inductive reachable :: "home \<Rightarrow> bool" where
  reach_mount: "reachable (mount t)"
| reach_event: "reachable s \<Longrightarrow> clock s \<le> t \<Longrightarrow> reachable (occurs t e s)"
| reach_wait: "reachable s \<Longrightarrow> clock s \<le> t \<Longrightarrow> reachable (advance t s)"

section \<open>The catalog query of the server\<close>

text \<open>
  Modelled from the spec: the handler of \<^verbatim>\<open>GET /api/products\<close> (the catalog query
  engine of the backend), which the page calls and whose code is not among the sources.
  The definitions follow section 4.1 of the specification: the parameters of the
  contract, the four predicates, and the three orders.
\<close>

datatype stock_bucket = in_stock | low_stock | out_of_stock

datatype sort_order = newest | price_asc | price_desc

record catalog_params =
  q_search :: "string option"
  q_category :: "string option"
  q_minPrice :: rat
  q_maxPrice :: rat
  q_stockStatus :: "stock_bucket option"
  q_sortBy :: sort_order

text \<open>Modelled from the spec: the stock buckets, as quantities.\<close>

fun in_bucket :: "stock_bucket \<Rightarrow> int \<Rightarrow> bool" where
  "in_bucket in_stock quantity = (quantity \<ge> 10)"
| "in_bucket low_stock quantity = (1 \<le> quantity \<and> quantity < 10)"
| "in_bucket out_of_stock quantity = (quantity = 0)"

text \<open>
  Modelled from the spec: the names under which the parameter \<^verbatim>\<open>stock_status\<close>
  carries the three buckets.
\<close>

fun bucket_named :: "string \<Rightarrow> stock_bucket option" where
  "bucket_named s =
     (if s = ''in_stock'' then Some in_stock
      else if s = ''low_stock'' then Some low_stock
      else if s = ''out_of_stock'' then Some out_of_stock
      else None)"

text \<open>
  Modelled from the spec: case-insensitive substring match.  Letters are compared after
  folding the upper-case Latin letters to lower case.
\<close>

definition lower_char :: "char \<Rightarrow> char" where
  "lower_char c =
     (if 65 \<le> (of_char c :: nat) \<and> (of_char c :: nat) \<le> 90
      then char_of ((of_char c :: nat) + 32) else c)"

definition lower :: "string \<Rightarrow> string" where
  "lower s = map lower_char s"

fun starts_with :: "string \<Rightarrow> string \<Rightarrow> bool" where
  "starts_with [] hay = True"
| "starts_with (c # cs) [] = False"
| "starts_with (c # cs) (h # hs) = (c = h \<and> starts_with cs hs)"

fun contains :: "string \<Rightarrow> string \<Rightarrow> bool" where
  "contains needle [] = (needle = [])"
| "contains needle (h # hs) = (starts_with needle (h # hs) \<or> contains needle hs)"

definition search_matches :: "string \<Rightarrow> product \<Rightarrow> bool" where
  "search_matches text p =
     (contains (lower text) (lower (name p)) \<or> contains (lower text) (lower (description p)))"

text \<open>Modelled from the spec: a product satisfies every predicate that is present.\<close>

definition satisfies :: "catalog_params \<Rightarrow> product \<Rightarrow> bool" where
  "satisfies q p =
     ((case q_search q of None \<Rightarrow> True | Some text \<Rightarrow> search_matches text p)
      \<and> (case q_category q of None \<Rightarrow> True | Some c \<Rightarrow> category p = c)
      \<and> q_minPrice q \<le> price p \<and> price p \<le> q_maxPrice q
      \<and> (case q_stockStatus q of None \<Rightarrow> True | Some b \<Rightarrow> in_bucket b (stock p)))"

text \<open>
  Modelled from the spec: the orders.  \<open>comes_before o a b\<close> says that \<open>a\<close> may stand
  before \<open>b\<close>; the result is built by stable insertion.
\<close>

fun comes_before :: "sort_order \<Rightarrow> product \<Rightarrow> product \<Rightarrow> bool" where
  "comes_before newest a b =
     (created a > created b \<or> (created a = created b \<and> pid a \<ge> pid b))"
| "comes_before price_asc a b = (price a \<le> price b)"
| "comes_before price_desc a b = (price a \<ge> price b)"

fun place :: "sort_order \<Rightarrow> product \<Rightarrow> product list \<Rightarrow> product list" where
  "place ord p [] = [p]"
| "place ord p (x # xs) = (if comes_before ord p x then p # x # xs else x # place ord p xs)"

definition arrange :: "sort_order \<Rightarrow> product list \<Rightarrow> product list" where
  "arrange ord ps = foldr (place ord) ps []"

definition catalog_query :: "catalog_params \<Rightarrow> product list \<Rightarrow> product list" where
  "catalog_query q db = arrange (q_sortBy q) (filter (satisfies q) db)"

section \<open>The invariant of the price range\<close>

text \<open>Both bounds are finite and \<open>0 \<le> min \<le> max \<le> 10000\<close>.\<close>

definition range_ok :: "price_array \<Rightarrow> bool" where
  "range_ok r =
     (case (elem0 r, elem1 r) of
        (Fin a, Fin b) \<Rightarrow> 0 \<le> a \<and> a \<le> b \<and> b \<le> 10000
      | _ \<Rightarrow> False)"

section \<open>The enumerated filter fields\<close>

definition enumerated :: "filters \<Rightarrow> bool" where
  "enumerated f =
     (stockStatus f \<in> {None, Some ''in_stock'', Some ''low_stock'', Some ''out_of_stock''}
      \<and> sortBy f \<in> {''newest'', ''price_asc'', ''price_desc''})"

section \<open>Example data\<close>

definition hammer :: product where
  "hammer = \<lparr>pid = 1, name = ''Claw Hammer'', description = ''Steel head'', price = 25,
             stock = 40, category = ''Tools'', imageUrl = [], created = 10\<rparr>"

definition saw :: product where
  "saw = \<lparr>pid = 2, name = ''Hand Saw'', description = ''Fine teeth'', price = 39 / 2,
          stock = 3, category = ''Tools'', imageUrl = [], created = 20\<rparr>"

definition example_params :: catalog_params where
  "example_params = \<lparr>q_search = Some ''SAW'', q_category = Some ''Tools'', q_minPrice = 0,
      q_maxPrice = 10000, q_stockStatus = Some low_stock, q_sortBy = price_asc\<rparr>"

section \<open>Array identities\<close>

text \<open>The array held in \<^verbatim>\<open>priceRange\<close> was allocated before the next one will be.\<close>

definition fresh :: "home \<Rightarrow> bool" where
  "fresh s = (ident (priceRange (filt s)) < next_ident s)"

section \<open>Runs of events\<close>

text \<open>
  A run is a list of events, each with its time; the page handles them in order.  In a
  run without change no event alters one of the five filter values: its events are
  answers to requests and user actions that leave the filters as they are.
\<close>

fun run :: "(nat \<times> event) list \<Rightarrow> home \<Rightarrow> home" where
  "run [] s = s"
| "run ((t, e) # es) s = run es (occurs t e s)"

fun no_change :: "(nat \<times> event) list \<Rightarrow> home \<Rightarrow> bool" where
  "no_change [] s = True"
| "no_change ((t, e) # es) s = (filt (occurs t e s) = filt s \<and> no_change es (occurs t e s))"

section \<open>Example runs\<close>

text \<open>The page is mounted at time 0 and the user types a search text, a letter at a time.\<close>

definition typed_s :: home where
  "typed_s = occurs 0 (User (SearchInput ''s'')) (mount 0)"

definition typed_sa :: home where
  "typed_sa = occurs 50 (User (SearchInput ''sa'')) typed_s"

definition typed_saw :: home where
  "typed_saw = occurs 100 (User (SearchInput ''saw'')) typed_sa"

text \<open>
  What may follow the typing: the two requests are answered, one of them after the
  debounced request was sent, and the user presses a stock button that is already active.
\<close>

definition afterwards :: "(nat \<times> event) list" where
  "afterwards = [(200, Answer 0 (Resolved [hammer, saw])), (450, Answer 1 (Resolved [saw])),
                 (500, User StockAll)]"

text \<open>
  The page is mounted at time 0, the user searches at time 500 and asks for low stock at
  time 600; at time 700 the timeout of the last change is still pending.  After a reset
  at that time a request fails and the user clears the min-price input.
\<close>

definition narrowed :: home where
  "narrowed = advance 700 (occurs 600 (User StockLowStock)
                 (occurs 500 (User (SearchInput ''saw'')) (mount 0)))"

definition after_reset :: "(nat \<times> event) list" where
  "after_reset = [(800, Answer 0 Rejected), (1200, User (MinPriceInput NaN))]"

text \<open>
  The page is mounted at time 0, the user enters a search text at time 100, and at time
  400 the request of the mount is still unanswered when the debounced request is sent.
  Then the second request is answered first.
\<close>

definition two_in_flight :: home where
  "two_in_flight = advance 400 (occurs 100 (User (SearchInput ''saw'')) (mount 0))"

definition stale_run :: home where
  "stale_run = occurs 500 (Answer 0 (Resolved [hammer, saw]))
                 (occurs 450 (Answer 1 (Resolved [saw])) two_in_flight)"

section \<open>Store hours: results\<close>

lemma getDay_less: "getDay d < 7"
  by (simp add: getDay_def nat_less_iff)

lemma getHours_less: "getHours d < 24"
  by (simp add: getHours_def nat_less_iff)

lemma days_not_closed: "n < 7 \<Longrightarrow> days ! n \<noteq> ''CLOSED''"
proof -
  assume "n < 7"
  then consider "n = 0" | "n = 1" | "n = 2" | "n = 3" | "n = 4" | "n = 5" | "n = 6"
    by linarith
  then show ?thesis
    by cases (simp_all add: days_def)
qed

text \<open>
  C10.  Whether the store is shown open depends on the timestamp only through its local
  day of the week and hour: it is open exactly when it is Sunday between 8 and 14, or
  another day between 8 and 20.  Each of the eight inline computations of a render
  returns its "open" variant exactly under this condition, so for one timestamp they all
  agree.
\<close>

theorem store_hours_agree:
  "(desktop_frame now = ''bg-gradient-to-r from-orange-500/10 to-amber-500/10 border-orange-500/20'')
     = isOpenAt (getDay now) (getHours now)
   \<and> (desktop_dot now = ''bg-green-500 animate-pulse'') = isOpenAt (getDay now) (getHours now)
   \<and> (desktop_tone now = ''text-orange-400'') = isOpenAt (getDay now) (getHours now)
   \<and> (desktop_label now \<noteq> ''CLOSED'') = isOpenAt (getDay now) (getHours now)
   \<and> (mobile_frame now = ''bg-gradient-to-r from-orange-500/10 to-amber-500/10 border-orange-500/20'')
     = isOpenAt (getDay now) (getHours now)
   \<and> (mobile_dot now = ''bg-green-500 animate-pulse'') = isOpenAt (getDay now) (getHours now)
   \<and> (mobile_tone now = ''text-orange-400'') = isOpenAt (getDay now) (getHours now)
   \<and> (mobile_label now \<noteq> ''CLOSED'') = isOpenAt (getDay now) (getHours now)"
proof -
  have closed: "days ! getDay now \<noteq> ''CLOSED''"
    by (rule days_not_closed [OF getDay_less])
  have 1: "(desktop_frame now = ''bg-gradient-to-r from-orange-500/10 to-amber-500/10 border-orange-500/20'')
     = isOpenAt (getDay now) (getHours now)"
    by (simp add: desktop_frame_def isOpenAt_def Let_def)
  have 2: "(desktop_dot now = ''bg-green-500 animate-pulse'') = isOpenAt (getDay now) (getHours now)"
    by (simp add: desktop_dot_def isOpenAt_def Let_def)
  have 3: "(desktop_tone now = ''text-orange-400'') = isOpenAt (getDay now) (getHours now)"
    by (simp add: desktop_tone_def isOpenAt_def Let_def)
  have 4: "(desktop_label now \<noteq> ''CLOSED'') = isOpenAt (getDay now) (getHours now)"
    by (simp add: desktop_label_def isOpenAt_def Let_def)
  have 5: "(mobile_frame now = ''bg-gradient-to-r from-orange-500/10 to-amber-500/10 border-orange-500/20'')
     = isOpenAt (getDay now) (getHours now)"
    by (simp add: mobile_frame_def isOpenAt_def Let_def)
  have 6: "(mobile_dot now = ''bg-green-500 animate-pulse'') = isOpenAt (getDay now) (getHours now)"
    by (simp add: mobile_dot_def isOpenAt_def Let_def)
  have 7: "(mobile_tone now = ''text-orange-400'') = isOpenAt (getDay now) (getHours now)"
    by (simp add: mobile_tone_def isOpenAt_def Let_def)
  have 8: "(mobile_label now \<noteq> ''CLOSED'') = isOpenAt (getDay now) (getHours now)"
    using closed by (simp add: mobile_label_def isOpenAt_def Let_def)
  from 1 2 3 4 5 6 7 8 show ?thesis
    by blast
qed

theorem store_hours_agree_witness:
  "getDay \<lparr>time_value = 291600000, zone_offset = 0\<rparr> = 0
   \<and> getHours \<lparr>time_value = 291600000, zone_offset = 0\<rparr> = 9
   \<and> isOpenAt 0 9
   \<and> desktop_dot \<lparr>time_value = 291600000, zone_offset = 0\<rparr> = ''bg-green-500 animate-pulse''
   \<and> mobile_label \<lparr>time_value = 291600000, zone_offset = 0\<rparr> \<noteq> ''CLOSED''"
proof -
  have d: "getDay \<lparr>time_value = 291600000, zone_offset = 0\<rparr> = 0"
    by (simp add: getDay_def local_time_def)
  have h: "getHours \<lparr>time_value = 291600000, zone_offset = 0\<rparr> = 9"
    by (simp add: getHours_def local_time_def)
  have o: "isOpenAt 0 9"
    by (simp add: isOpenAt_def)
  from d h o store_hours_agree [of "\<lparr>time_value = 291600000, zone_offset = 0\<rparr>"]
  show ?thesis
    by simp
qed

section \<open>Category cards\<close>

lemma filt_dispatch: "filt (dispatch a s) = filt (handler a s)"
  by (simp add: dispatch_def Let_def)

text \<open>
  C9.  A click on the card of the category that is selected clears the selection; a
  click on any other card selects that card's category; so two clicks on one card,
  starting with no selection, end with no selection.
\<close>

theorem category_toggle:
  "(selectedCategory (filt s) = Some c \<longrightarrow>
      selectedCategory (filt (dispatch (CategoryCard c) s)) = None)
   \<and> (selectedCategory (filt s) \<noteq> Some c \<longrightarrow>
      selectedCategory (filt (dispatch (CategoryCard c) s)) = Some c)
   \<and> (selectedCategory (filt s) = None \<longrightarrow>
      selectedCategory (filt (dispatch (CategoryCard c) (dispatch (CategoryCard c) s))) = None)"
  by (simp add: filt_dispatch categoryClick_def setSelectedCategory_def)

theorem category_toggle_witness:
  "selectedCategory (filt (mount 0)) = None
   \<and> selectedCategory (filt (dispatch (CategoryCard ''Tools'') (mount 0))) = Some ''Tools''
   \<and> selectedCategory (filt (dispatch (CategoryCard ''Tools'')
        (dispatch (CategoryCard ''Tools'') (mount 0)))) = None"
  using category_toggle [of "mount 0" "''Tools''"]
  by (simp add: mount_def initial_def fetchProducts_def setLoading_def Let_def)

section \<open>Price inputs\<close>

lemma range_okE:
  assumes "range_ok r"
  obtains a b where "elem0 r = Fin a" "elem1 r = Fin b" "0 \<le> a" "a \<le> b" "b \<le> 10000"
  using assms by (auto simp: range_ok_def split: jsnum.splits)

lemma minPrice_filt:
  "v \<noteq> NaN \<Longrightarrow> priceRange (filt (minPriceChange v s)) =
     \<lparr>ident = next_ident s,
      elem0 = Math_max (Fin 0) (Math_min v (elem1 (priceRange (filt s)))),
      elem1 = elem1 (priceRange (filt s))\<rparr>"
  by (simp add: minPriceChange_def isNaN_def array_literal_def setPriceRange_def Let_def)

lemma maxPrice_filt:
  "v \<noteq> NaN \<Longrightarrow> priceRange (filt (maxPriceChange v s)) =
     \<lparr>ident = next_ident s,
      elem0 = elem0 (priceRange (filt s)),
      elem1 = Math_max (elem0 (priceRange (filt s))) (Math_min v (Fin 10000))\<rparr>"
  by (simp add: maxPriceChange_def isNaN_def array_literal_def setPriceRange_def Let_def)

lemma clamp_min:
  "0 \<le> b \<Longrightarrow> Math_max (Fin 0) (Math_min v (Fin b)) =
     (case v of NaN \<Rightarrow> NaN | NegInf \<Rightarrow> Fin 0 | Fin x \<Rightarrow> Fin (max 0 (min x b)) | PosInf \<Rightarrow> Fin b)"
  by (cases v) (auto simp: Math_max_def Math_min_def isNaN_def)

lemma clamp_max:
  "a \<le> 10000 \<Longrightarrow> Math_max (Fin a) (Math_min v (Fin 10000)) =
     (case v of NaN \<Rightarrow> NaN | NegInf \<Rightarrow> Fin a | Fin x \<Rightarrow> Fin (max a (min x 10000))
      | PosInf \<Rightarrow> Fin 10000)"
  by (cases v) (auto simp: Math_max_def Math_min_def isNaN_def)

text \<open>
  C8.  When the price range satisfies \<open>0 \<le> min \<le> max \<le> 10000\<close>, it still does after
  the handler of the min-price input and after the handler of the max-price input.  The
  min handler keeps the max and stores the entered number clamped into \<open>[0, max]\<close>; the
  max handler keeps the min and stores the entered number clamped into \<open>[min, 10000]\<close>;
  an input that does not parse to a number leaves the whole state as it was.
\<close>

theorem price_inputs_keep_range:
  assumes "range_ok (priceRange (filt s))"
  shows "range_ok (priceRange (filt (minPriceChange v s)))
       \<and> range_ok (priceRange (filt (maxPriceChange v s)))
       \<and> elem1 (priceRange (filt (minPriceChange v s))) = elem1 (priceRange (filt s))
       \<and> elem0 (priceRange (filt (maxPriceChange v s))) = elem0 (priceRange (filt s))
       \<and> (\<forall>x b. v = Fin x \<and> elem1 (priceRange (filt s)) = Fin b \<longrightarrow>
             elem0 (priceRange (filt (minPriceChange v s))) = Fin (max 0 (min x b)))
       \<and> (\<forall>x a. v = Fin x \<and> elem0 (priceRange (filt s)) = Fin a \<longrightarrow>
             elem1 (priceRange (filt (maxPriceChange v s))) = Fin (max a (min x 10000)))
       \<and> minPriceChange NaN s = s \<and> maxPriceChange NaN s = s"
proof -
  from assms obtain a b where ab: "elem0 (priceRange (filt s)) = Fin a"
    "elem1 (priceRange (filt s)) = Fin b" "0 \<le> a" "a \<le> b" "b \<le> 10000"
    by (rule range_okE)
  have nan: "minPriceChange NaN s = s \<and> maxPriceChange NaN s = s"
    by (simp add: minPriceChange_def maxPriceChange_def isNaN_def)
  show ?thesis
  proof (cases "v = NaN")
    case True
    with nan assms show ?thesis by simp
  next
    case False
    have lo: "priceRange (filt (minPriceChange v s)) =
        \<lparr>ident = next_ident s,
         elem0 = (case v of NaN \<Rightarrow> NaN | NegInf \<Rightarrow> Fin 0 | Fin x \<Rightarrow> Fin (max 0 (min x b))
                  | PosInf \<Rightarrow> Fin b),
         elem1 = Fin b\<rparr>"
      using False ab by (simp add: minPrice_filt clamp_min)
    have hi: "priceRange (filt (maxPriceChange v s)) =
        \<lparr>ident = next_ident s, elem0 = Fin a,
         elem1 = (case v of NaN \<Rightarrow> NaN | NegInf \<Rightarrow> Fin a | Fin x \<Rightarrow> Fin (max a (min x 10000))
                  | PosInf \<Rightarrow> Fin 10000)\<rparr>"
      using False ab by (simp add: maxPrice_filt clamp_max)
    have 1: "range_ok (priceRange (filt (minPriceChange v s)))"
      using False ab unfolding lo by (cases v) (simp_all add: range_ok_def)
    have 2: "range_ok (priceRange (filt (maxPriceChange v s)))"
      using False ab unfolding hi by (cases v) (simp_all add: range_ok_def)
    have 3: "\<forall>x b. v = Fin x \<and> elem1 (priceRange (filt s)) = Fin b \<longrightarrow>
             elem0 (priceRange (filt (minPriceChange v s))) = Fin (max 0 (min x b))"
      unfolding lo using ab by auto
    have 4: "\<forall>x a. v = Fin x \<and> elem0 (priceRange (filt s)) = Fin a \<longrightarrow>
             elem1 (priceRange (filt (maxPriceChange v s))) = Fin (max a (min x 10000))"
      unfolding hi using ab by auto
    have 5: "elem1 (priceRange (filt (minPriceChange v s))) = elem1 (priceRange (filt s))"
      unfolding lo using ab by simp
    have 6: "elem0 (priceRange (filt (maxPriceChange v s))) = elem0 (priceRange (filt s))"
      unfolding hi using ab by simp
    from 1 2 3 4 5 6 nan show ?thesis
      by blast
  qed
qed

theorem price_inputs_keep_range_witness:
  "range_ok (priceRange (filt (mount 0)))
   \<and> priceRange (filt (minPriceChange (Fin 20000) (mount 0)))
       = \<lparr>ident = 1, elem0 = Fin 10000, elem1 = Fin 10000\<rparr>
   \<and> range_ok (priceRange (filt (minPriceChange (Fin 20000) (mount 0))))
   \<and> range_ok (priceRange (filt (maxPriceChange (Fin 20000) (mount 0))))"
proof -
  have h: "range_ok (priceRange (filt (mount 0)))"
    by (simp add: range_ok_def mount_def initial_def fetchProducts_def setLoading_def Let_def)
  have "priceRange (filt (minPriceChange (Fin 20000) (mount 0)))
       = \<lparr>ident = 1, elem0 = Fin 10000, elem1 = Fin 10000\<rparr>"
    by (simp add: minPriceChange_def isNaN_def Math_max_def Math_min_def array_literal_def
        setPriceRange_def mount_def initial_def fetchProducts_def setLoading_def Let_def)
  with h price_inputs_keep_range [OF h, of "Fin 20000"] show ?thesis
    by blast
qed

section \<open>The products request\<close>

text \<open>
  C5.  A filter field counts as set when it holds a non-empty string; null and the empty
  string are unset.  The request built by \<^verbatim>\<open>fetchProducts\<close> has, in this order,
  \<^verbatim>\<open>search\<close> when the search text is set, \<^verbatim>\<open>category\<close> when the category is
  set, \<^verbatim>\<open>min_price\<close> and \<^verbatim>\<open>max_price\<close> always, \<^verbatim>\<open>stock_status\<close> when the
  stock filter is set and \<^verbatim>\<open>sort_by\<close> when the sort order is set, and nothing else;
  each parameter carries the value of its field, and this is the request that is sent.
\<close>

theorem fetch_query_keys:
  "map fst (fetch_query f) =
     (if searchQuery f \<noteq> [] then [''search''] else [])
     @ (if selectedCategory f \<noteq> None \<and> selectedCategory f \<noteq> Some [] then [''category''] else [])
     @ [''min_price'', ''max_price'']
     @ (if stockStatus f \<noteq> None \<and> stockStatus f \<noteq> Some [] then [''stock_status''] else [])
     @ (if sortBy f \<noteq> [] then [''sort_by''] else [])
   \<and> (''min_price'', Num (elem0 (priceRange f))) \<in> set (fetch_query f)
   \<and> (''max_price'', Num (elem1 (priceRange f))) \<in> set (fetch_query f)
   \<and> (searchQuery f \<noteq> [] \<longrightarrow> (''search'', Str (searchQuery f)) \<in> set (fetch_query f))
   \<and> (\<forall>c. selectedCategory f = Some c \<and> c \<noteq> [] \<longrightarrow> (''category'', Str c) \<in> set (fetch_query f))
   \<and> (\<forall>b. stockStatus f = Some b \<and> b \<noteq> [] \<longrightarrow> (''stock_status'', Str b) \<in> set (fetch_query f))
   \<and> (sortBy f \<noteq> [] \<longrightarrow> (''sort_by'', Str (sortBy f)) \<in> set (fetch_query f))
   \<and> issued (fetchProducts f s) = issued s @ [(clock s, fetch_query f)]"
proof -
  have keys: "map fst (fetch_query f) =
     (if searchQuery f \<noteq> [] then [''search''] else [])
     @ (if selectedCategory f \<noteq> None \<and> selectedCategory f \<noteq> Some [] then [''category''] else [])
     @ [''min_price'', ''max_price'']
     @ (if stockStatus f \<noteq> None \<and> stockStatus f \<noteq> Some [] then [''stock_status''] else [])
     @ (if sortBy f \<noteq> [] then [''sort_by''] else [])"
    by (cases "selectedCategory f"; cases "stockStatus f") (simp_all add: fetch_query_def truthy_def)
  have vals: "(''min_price'', Num (elem0 (priceRange f))) \<in> set (fetch_query f)
   \<and> (''max_price'', Num (elem1 (priceRange f))) \<in> set (fetch_query f)
   \<and> (searchQuery f \<noteq> [] \<longrightarrow> (''search'', Str (searchQuery f)) \<in> set (fetch_query f))
   \<and> (\<forall>c. selectedCategory f = Some c \<and> c \<noteq> [] \<longrightarrow> (''category'', Str c) \<in> set (fetch_query f))
   \<and> (\<forall>b. stockStatus f = Some b \<and> b \<noteq> [] \<longrightarrow> (''stock_status'', Str b) \<in> set (fetch_query f))
   \<and> (sortBy f \<noteq> [] \<longrightarrow> (''sort_by'', Str (sortBy f)) \<in> set (fetch_query f))"
    by (simp add: fetch_query_def truthy_def)
  have sent: "issued (fetchProducts f s) = issued s @ [(clock s, fetch_query f)]"
    by (simp add: fetchProducts_def setLoading_def Let_def)
  from keys vals sent show ?thesis
    by blast
qed

theorem fetch_query_keys_witness:
  "fetch_query \<lparr>searchQuery = ''saw'', selectedCategory = None,
       priceRange = \<lparr>ident = 0, elem0 = Fin 0, elem1 = Fin 10000\<rparr>,
       stockStatus = Some ''low_stock'', sortBy = ''newest''\<rparr>
     = [(''search'', Str ''saw''), (''min_price'', Num (Fin 0)), (''max_price'', Num (Fin 10000)),
        (''stock_status'', Str ''low_stock''), (''sort_by'', Str ''newest'')]
   \<and> map fst (fetch_query \<lparr>searchQuery = ''saw'', selectedCategory = None,
       priceRange = \<lparr>ident = 0, elem0 = Fin 0, elem1 = Fin 10000\<rparr>,
       stockStatus = Some ''low_stock'', sortBy = ''newest''\<rparr>)
     = [''search'', ''min_price'', ''max_price'', ''stock_status'', ''sort_by'']"
  using fetch_query_keys [of "\<lparr>searchQuery = ''saw'', selectedCategory = None,
       priceRange = \<lparr>ident = 0, elem0 = Fin 0, elem1 = Fin 10000\<rparr>,
       stockStatus = Some ''low_stock'', sortBy = ''newest''\<rparr>" "mount 0"]
  by (simp add: fetch_query_def truthy_def)

section \<open>A failed request\<close>

text \<open>
  C6.  When a products request that is in flight fails, the product list stays as it
  was, the toast "Failed to load products" is shown, the loading flag is cleared, and
  nothing is sent or scheduled: the log of requests, the request counter and the pending
  timeout are unchanged, and the set of requests in flight only loses the failed one.
\<close>

theorem failed_fetch:
  assumes "rid \<in> fst ` set (inflight s)"
  shows "products (settle rid Rejected s) = products s
       \<and> toasts (settle rid Rejected s) = toasts s @ [''Failed to load products'']
       \<and> loading (settle rid Rejected s) = False
       \<and> issued (settle rid Rejected s) = issued s
       \<and> next_request (settle rid Rejected s) = next_request s
       \<and> debounce (settle rid Rejected s) = debounce s
       \<and> filt (settle rid Rejected s) = filt s
       \<and> inflight (settle rid Rejected s) = filter (\<lambda>e. fst e \<noteq> rid) (inflight s)"
  using assms by (simp add: settle_def setLoading_def Let_def)

theorem failed_fetch_witness:
  "0 \<in> fst ` set (inflight (mount 0))
   \<and> products (settle 0 Rejected (mount 0)) = []
   \<and> toasts (settle 0 Rejected (mount 0)) = [''Failed to load products'']
   \<and> loading (mount 0) \<and> \<not> loading (settle 0 Rejected (mount 0))
   \<and> issued (settle 0 Rejected (mount 0)) = issued (mount 0)
   \<and> inflight (settle 0 Rejected (mount 0)) = []"
proof -
  have h: "0 \<in> fst ` set (inflight (mount 0))"
    by (simp add: mount_def initial_def fetchProducts_def setLoading_def Let_def)
  from failed_fetch [OF h] h show ?thesis
    by (simp add: mount_def initial_def fetchProducts_def setLoading_def Let_def)
qed

section \<open>The catalog query\<close>

lemma starts_with_iff: "starts_with n h = (\<exists>suf. h = n @ suf)"
  by (induction n h rule: starts_with.induct) auto

lemma contains_iff: "contains n h = (\<exists>pre suf. h = pre @ n @ suf)"
proof (induction h)
  case Nil
  then show ?case by auto
next
  case (Cons c cs)
  have "(\<exists>pre suf. c # cs = pre @ n @ suf)
        = ((\<exists>suf. c # cs = n @ suf) \<or> (\<exists>pre suf. cs = pre @ n @ suf))"
    by (auto simp: Cons_eq_append_conv)
  with Cons show ?case
    by (simp add: starts_with_iff)
qed

lemma set_place: "set (place ord p xs) = insert p (set xs)"
  by (induction xs) auto

lemma set_arrange: "set (arrange ord ps) = set ps"
  by (induction ps) (simp_all add: arrange_def set_place)

text \<open>
  C4.  Every product that the catalog query returns is a product of the catalog and
  satisfies all predicates that are active, together: if a search text is given, it
  occurs, ignoring case, inside the name or inside the description; if a category is
  given, the product's category equals it; the price lies between the minimum and the
  maximum, both included; and the quantity in stock lies in the requested bucket.
\<close>

theorem catalog_conjunctive:
  assumes "p \<in> set (catalog_query q db)"
  shows "p \<in> set db
       \<and> (\<forall>text. q_search q = Some text \<longrightarrow>
            (\<exists>u v. lower (name p) = u @ lower text @ v)
            \<or> (\<exists>u v. lower (description p) = u @ lower text @ v))
       \<and> (\<forall>c. q_category q = Some c \<longrightarrow> category p = c)
       \<and> q_minPrice q \<le> price p \<and> price p \<le> q_maxPrice q
       \<and> (q_stockStatus q = Some in_stock \<longrightarrow> stock p \<ge> 10)
       \<and> (q_stockStatus q = Some low_stock \<longrightarrow> 1 \<le> stock p \<and> stock p < 10)
       \<and> (q_stockStatus q = Some out_of_stock \<longrightarrow> stock p = 0)"
proof -
  from assms have db: "p \<in> set db" and sat: "satisfies q p"
    by (simp_all add: catalog_query_def set_arrange)
  from sat have s: "\<forall>text. q_search q = Some text \<longrightarrow>
            (\<exists>u v. lower (name p) = u @ lower text @ v)
            \<or> (\<exists>u v. lower (description p) = u @ lower text @ v)"
    by (auto simp: satisfies_def search_matches_def contains_iff)
  from sat have c: "\<forall>c. q_category q = Some c \<longrightarrow> category p = c"
    by (auto simp: satisfies_def)
  from sat have pr: "q_minPrice q \<le> price p \<and> price p \<le> q_maxPrice q"
    by (simp add: satisfies_def)
  from sat have st: "(q_stockStatus q = Some in_stock \<longrightarrow> stock p \<ge> 10)
       \<and> (q_stockStatus q = Some low_stock \<longrightarrow> 1 \<le> stock p \<and> stock p < 10)
       \<and> (q_stockStatus q = Some out_of_stock \<longrightarrow> stock p = 0)"
    by (auto simp: satisfies_def)
  from db s c pr st show ?thesis
    by blast
qed


theorem catalog_conjunctive_witness:
  "saw \<in> set (catalog_query example_params [hammer, saw])
   \<and> hammer \<notin> set (catalog_query example_params [hammer, saw])
   \<and> lower (name saw) = ''hand '' @ lower ''SAW'' @ []
   \<and> category saw = ''Tools'' \<and> 0 \<le> price saw \<and> price saw \<le> 10000
   \<and> 1 \<le> stock saw \<and> stock saw < 10"
proof -
  have q: "catalog_query example_params [hammer, saw] = [saw]"
    by code_simp
  have m: "saw \<in> set (catalog_query example_params [hammer, saw])"
    by (simp add: q)
  have n: "hammer \<noteq> saw"
    by (simp add: hammer_def saw_def)
  have l: "lower (name saw) = ''hand '' @ lower ''SAW'' @ []"
    by code_simp
  have f: "category saw = ''Tools'' \<and> 0 \<le> price saw \<and> price saw \<le> 10000
      \<and> 1 \<le> stock saw \<and> stock saw < 10"
    by (simp add: saw_def)
  from catalog_conjunctive [OF m] m n l f show ?thesis
    by (simp add: q)
qed

section \<open>Reachable states\<close>

lemma filt_advance: "filt (advance t s) = filt s"
  by (simp add: advance_def fetchProducts_def setLoading_def Let_def split: option.splits)

lemma filt_settle: "filt (settle rid r s) = filt s"
  by (simp add: settle_def setLoading_def setProducts_def Let_def split: response.splits)

lemma enumerated_handler: "enumerated (filt s) \<Longrightarrow> enumerated (filt (handler a s))"
proof (cases a)
  case (SortSelect i)
  assume "enumerated (filt s)"
  with SortSelect show ?thesis
    by (cases i) (simp_all add: enumerated_def setSortBy_def)
qed (simp_all add: enumerated_def setSearchQuery_def categoryClick_def setSelectedCategory_def
      sliderChange_def array_literal_def setPriceRange_def minPriceChange_def maxPriceChange_def
      setStockStatus_def resetFilters_def setSortBy_def Let_def)

lemma enumerated_reachable: "reachable s \<Longrightarrow> enumerated (filt s)"
proof (induction rule: reachable.induct)
  case (reach_mount t)
  show ?case
    by (simp add: enumerated_def mount_def initial_def fetchProducts_def setLoading_def Let_def)
next
  case (reach_event s t e)
  then show ?case
    by (cases e) (simp_all add: occurs_def filt_dispatch filt_advance filt_settle
        enumerated_handler)
next
  case (reach_wait s t)
  then show ?case
    by (simp add: filt_advance)
qed

text \<open>
  C7.  In every state the page can reach, the stock filter is null or one of
  \<^verbatim>\<open>in_stock\<close>, \<^verbatim>\<open>low_stock\<close>, \<^verbatim>\<open>out_of_stock\<close>, and the sort field is one of
  \<^verbatim>\<open>newest\<close>, \<^verbatim>\<open>price_asc\<close>, \<^verbatim>\<open>price_desc\<close>.  The three names denote the
  buckets of ten or more, of one to nine, and of zero items in stock.
\<close>

theorem enumerated_filters:
  assumes "reachable s"
  shows "stockStatus (filt s) \<in> {None, Some ''in_stock'', Some ''low_stock'', Some ''out_of_stock''}
       \<and> sortBy (filt s) \<in> {''newest'', ''price_asc'', ''price_desc''}
       \<and> bucket_named ''in_stock'' = Some in_stock
       \<and> bucket_named ''low_stock'' = Some low_stock
       \<and> bucket_named ''out_of_stock'' = Some out_of_stock
       \<and> (\<forall>quantity. in_bucket in_stock quantity = (quantity \<ge> 10))
       \<and> (\<forall>quantity. in_bucket low_stock quantity = (1 \<le> quantity \<and> quantity < 10))
       \<and> (\<forall>quantity. in_bucket out_of_stock quantity = (quantity = 0))"
  using enumerated_reachable [OF assms] by (simp add: enumerated_def)

theorem enumerated_filters_witness:
  "reachable (occurs 5 (User StockLowStock) (mount 0))
   \<and> stockStatus (filt (occurs 5 (User StockLowStock) (mount 0))) = Some ''low_stock''
   \<and> sortBy (filt (occurs 5 (User StockLowStock) (mount 0))) = ''newest''"
proof -
  have c: "clock (mount 0) \<le> 5"
    by (simp add: mount_def initial_def fetchProducts_def setLoading_def Let_def)
  have r: "reachable (occurs 5 (User StockLowStock) (mount 0))"
    by (rule reach_event [OF reach_mount c])
  have v: "stockStatus (filt (occurs 5 (User StockLowStock) (mount 0))) = Some ''low_stock''"
    by (simp add: occurs_def filt_dispatch filt_advance setStockStatus_def)
  have w: "sortBy (filt (occurs 5 (User StockLowStock) (mount 0))) = ''newest''"
    by (simp add: occurs_def filt_dispatch filt_advance setStockStatus_def mount_def initial_def
        fetchProducts_def setLoading_def Let_def)
  from enumerated_filters [OF r] r v w show ?thesis
    by simp
qed

section \<open>The debounced refetch\<close>

lemmas setters = setSearchQuery_def setSelectedCategory_def setPriceRange_def setStockStatus_def
  setSortBy_def array_literal_def categoryClick_def sliderChange_def minPriceChange_def
  maxPriceChange_def resetFilters_def

lemma handler_frame:
  "clock (handler a s) = clock s \<and> issued (handler a s) = issued s
   \<and> debounce (handler a s) = debounce s \<and> products (handler a s) = products s
   \<and> inflight (handler a s) = inflight s"
  by (cases a) (simp_all add: setters Let_def)

lemma dispatch_frame:
  "clock (dispatch a s) = clock s \<and> issued (dispatch a s) = issued s
   \<and> products (dispatch a s) = products s \<and> inflight (dispatch a s) = inflight s"
  by (simp add: dispatch_def Let_def handler_frame)

lemma dispatch_schedules:
  "filt (dispatch a s) \<noteq> filt s \<Longrightarrow>
     debounce (dispatch a s) = Some (clock s + 300, filt (dispatch a s))"
  by (auto simp: dispatch_def Let_def handler_frame)

lemma clock_advance: "clock s \<le> t \<Longrightarrow> clock (advance t s) = t"
  by (simp add: advance_def fetchProducts_def setLoading_def Let_def split: option.splits)

lemma advance_idle:
  "debounce s = None \<Longrightarrow> issued (advance t s) = issued s \<and> debounce (advance t s) = None"
  by (simp add: advance_def)

lemma advance_early:
  "debounce s = Some (d, f) \<Longrightarrow> t < d \<Longrightarrow>
     issued (advance t s) = issued s \<and> debounce (advance t s) = Some (d, f)"
  by (simp add: advance_def)

lemma advance_pending:
  "debounce s = Some (d, f) \<Longrightarrow> clock s < d \<Longrightarrow>
     issued (advance T s) = (if d \<le> T then issued s @ [(d, fetch_query f)] else issued s)"
  by (simp add: advance_def fetchProducts_def setLoading_def Let_def)

lemma change_restarts:
  assumes t: "clock s \<le> t" and quiet: "\<And>d f. debounce s = Some (d, f) \<Longrightarrow> t < d"
    and change: "filt (occurs t (User a) s) \<noteq> filt s"
  shows "issued (occurs t (User a) s) = issued s"
    and "debounce (occurs t (User a) s) = Some (t + 300, filt (occurs t (User a) s))"
    and "clock (occurs t (User a) s) = t"
proof -
  have i: "issued (advance t s) = issued s"
  proof (cases "debounce s")
    case None
    then show ?thesis by (simp add: advance_idle)
  next
    case (Some p)
    obtain d f where p: "p = (d, f)" by (cases p)
    with Some quiet have "t < d" by simp
    with Some p show ?thesis by (simp add: advance_early)
  qed
  then show "issued (occurs t (User a) s) = issued s"
    by (simp add: occurs_def dispatch_frame)
  from change have "filt (dispatch a (advance t s)) \<noteq> filt (advance t s)"
    by (simp add: occurs_def filt_advance)
  then have "debounce (dispatch a (advance t s))
      = Some (clock (advance t s) + 300, filt (dispatch a (advance t s)))"
    by (rule dispatch_schedules)
  with t show "debounce (occurs t (User a) s) = Some (t + 300, filt (occurs t (User a) s))"
    by (simp add: occurs_def clock_advance)
  from t show "clock (occurs t (User a) s) = t"
    by (simp add: occurs_def dispatch_frame clock_advance)
qed

lemma settle_frame:
  "clock (settle rid r s) = clock s \<and> issued (settle rid r s) = issued s
   \<and> debounce (settle rid r s) = debounce s"
  by (simp add: settle_def setLoading_def setProducts_def Let_def split: response.splits)

lemma dispatch_keeps_timer: "filt (dispatch a s) = filt s \<Longrightarrow> debounce (dispatch a s) = debounce s"
  by (simp add: dispatch_def Let_def handler_frame split: if_splits)

lemma step_frame:
  "clock (step e s) = clock s \<and> issued (step e s) = issued s
   \<and> (filt (step e s) = filt s \<longrightarrow> debounce (step e s) = debounce s)"
  by (cases e) (simp_all add: dispatch_frame dispatch_keeps_timer settle_frame)

lemma clock_advance_max: "clock (advance t s) = max t (clock s)"
  by (simp add: advance_def fetchProducts_def setLoading_def Let_def max_def
      split: option.splits)

lemma advance_while_pending:
  assumes "debounce s = Some (d, f)" and "clock s < d"
  shows "issued (advance t s) = (if d \<le> t then issued s @ [(d, fetch_query f)] else issued s)"
    and "debounce (advance t s) = (if d \<le> t then None else Some (d, f))"
  using assms by (simp_all add: advance_def fetchProducts_def setLoading_def Let_def)

lemma quiet_event_idle:
  assumes "debounce s = None" and "filt (occurs t e s) = filt s"
  shows "debounce (occurs t e s) = None" and "issued (occurs t e s) = issued s"
proof -
  from assms(2) have "filt (step e (advance t s)) = filt (advance t s)"
    by (simp add: occurs_def filt_advance)
  with assms(1) show "debounce (occurs t e s) = None" and "issued (occurs t e s) = issued s"
    by (simp_all add: occurs_def step_frame advance_idle)
qed

lemma quiet_event_pending:
  assumes "debounce s = Some (d, f)" and "clock s < d" and "filt (occurs t e s) = filt s"
  shows "issued (occurs t e s)
           = (if d \<le> clock (occurs t e s) then issued s @ [(d, fetch_query f)] else issued s)"
    and "debounce (occurs t e s) = (if d \<le> clock (occurs t e s) then None else Some (d, f))"
proof -
  from assms(3) have u: "filt (step e (advance t s)) = filt (advance t s)"
    by (simp add: occurs_def filt_advance)
  have k: "clock (occurs t e s) = max t (clock s)"
    by (simp add: occurs_def step_frame clock_advance_max)
  from assms(2) have m: "(d \<le> max t (clock s)) = (d \<le> t)"
    by auto
  show "issued (occurs t e s)
           = (if d \<le> clock (occurs t e s) then issued s @ [(d, fetch_query f)] else issued s)"
    unfolding k m by (simp add: occurs_def step_frame advance_while_pending [OF assms(1,2)])
  show "debounce (occurs t e s) = (if d \<le> clock (occurs t e s) then None else Some (d, f))"
    unfolding k m using u
    by (simp add: occurs_def step_frame advance_while_pending [OF assms(1,2)])
qed

lemma clock_occurs_mono: "clock s \<le> clock (occurs t e s)"
  by (simp add: occurs_def step_frame clock_advance_max)

lemma clock_run_mono: "clock s \<le> clock (run es s)"
proof (induction es arbitrary: s)
  case Nil
  show ?case by simp
next
  case (Cons p es)
  obtain t e where p: "p = (t, e)" by (cases p)
  have "clock s \<le> clock (occurs t e s)" by (rule clock_occurs_mono)
  also have "\<dots> \<le> clock (run es (occurs t e s))" by (rule Cons.IH)
  finally show ?case by (simp add: p)
qed

lemma run_idle:
  "debounce s = None \<Longrightarrow> no_change es s \<Longrightarrow>
     debounce (run es s) = None \<and> issued (run es s) = issued s"
proof (induction es arbitrary: s)
  case Nil
  then show ?case by simp
next
  case (Cons p es)
  obtain t e where p: "p = (t, e)" by (cases p)
  from Cons.prems p have q: "filt (occurs t e s) = filt s" and n: "no_change es (occurs t e s)"
    by simp_all
  note i = quiet_event_idle [OF Cons.prems(1) q]
  from Cons.IH [OF i(1) n] i(2) show ?case
    by (simp add: p)
qed

lemma run_pending:
  "debounce s = Some (d, f) \<Longrightarrow> clock s < d \<Longrightarrow> no_change es s \<Longrightarrow>
     issued (run es s)
       = (if d \<le> clock (run es s) then issued s @ [(d, fetch_query f)] else issued s)
     \<and> debounce (run es s) = (if d \<le> clock (run es s) then None else Some (d, f))"
proof (induction es arbitrary: s)
  case Nil
  then show ?case by simp
next
  case (Cons p es)
  obtain t e where p: "p = (t, e)" by (cases p)
  from Cons.prems p have q: "filt (occurs t e s) = filt s" and n: "no_change es (occurs t e s)"
    by simp_all
  note i = quiet_event_pending [OF Cons.prems(1,2) q]
  show ?case
  proof (cases "d \<le> clock (occurs t e s)")
    case True
    with i have "debounce (occurs t e s) = None"
      and j: "issued (occurs t e s) = issued s @ [(d, fetch_query f)]"
      by simp_all
    from run_idle [OF this(1) n] j
    have "debounce (run es (occurs t e s)) = None"
      and "issued (run es (occurs t e s)) = issued s @ [(d, fetch_query f)]"
      by simp_all
    moreover from True clock_run_mono [of "occurs t e s" es]
    have "d \<le> clock (run es (occurs t e s))"
      by simp
    ultimately show ?thesis
      by (simp add: p)
  next
    case False
    with i have "debounce (occurs t e s) = Some (d, f)" and "clock (occurs t e s) < d"
      and "issued (occurs t e s) = issued s"
      by simp_all
    from Cons.IH [OF this(1,2) n] this(3) show ?thesis
      by (simp add: p)
  qed
qed

lemma filt_occurs_answer: "filt (occurs t (Answer rid r) s) = filt s"
  by (simp add: occurs_def filt_settle filt_advance)

lemma filt_occurs_user: "filt (occurs t (User a) s) = filt (handler a (advance t s))"
  by (simp add: occurs_def filt_dispatch)

lemma clock_occurs: "clock (occurs t e s) = max t (clock s)"
  by (simp add: occurs_def step_frame clock_advance_max)

lemma one_fetch:
  assumes p: "debounce s = Some (d, f)" and c: "clock s < d" and n: "no_change es s"
  shows "issued (advance T (run es s))
          = (if d \<le> clock (advance T (run es s)) then issued s @ [(d, fetch_query f)]
             else issued s)
       \<and> debounce (advance T (run es s))
          = (if d \<le> clock (advance T (run es s)) then None else Some (d, f))
       \<and> T \<le> clock (advance T (run es s))"
proof -
  note r = run_pending [OF p c n]
  have k: "clock (advance T (run es s)) = max T (clock (run es s))"
    by (rule clock_advance_max)
  show ?thesis
  proof (cases "d \<le> clock (run es s)")
    case True
    with r have "debounce (run es s) = None"
      and "issued (run es s) = issued s @ [(d, fetch_query f)]"
      by simp_all
    with True show ?thesis
      by (simp add: k advance_idle)
  next
    case False
    with r have a: "debounce (run es s) = Some (d, f)" and b: "clock (run es s) < d"
      and i: "issued (run es s) = issued s"
      by simp_all
    from b have m: "(d \<le> max T (clock (run es s))) = (d \<le> T)"
      by auto
    show ?thesis
      unfolding k m using i by (simp add: advance_while_pending [OF a b])
  qed
qed

text \<open>
  C1.  An action that changes one of the five filter values (search text, category, price
  range, stock filter, sort order) sends nothing itself and leaves a timeout due 300
  after the time of the action; with no further action, one fetch follows, at that time,
  with the filter values as they are after the action.  When such an action happens
  while a timeout is pending, the pending fetch is cancelled and the timer starts again:
  with no further action, the only fetch that follows is the one 300 after this action.  In particular, with no timeout due at
  time 0, three changing actions at the times 0, 50 and 100 are followed by exactly one
  fetch, at time 400, with the filter values as of time 100.  The timeout that has
  fired is gone: whatever run of answers and of actions that change no filter value
  follows, and however long the page waits after it, the log of requests is the log
  before the change with this one fetch added once the due time has been reached, and
  no timeout is then pending.
\<close>

theorem debounce_refetch:
  assumes start: "clock s0 = 0" and quiet: "\<And>f. debounce s0 \<noteq> Some (0, f)"
    and s1: "s1 = occurs 0 (User a1) s0" and c1: "filt s1 \<noteq> filt s0"
    and s2: "s2 = occurs 50 (User a2) s1" and c2: "filt s2 \<noteq> filt s1"
    and s3: "s3 = occurs 100 (User a3) s2" and c3: "filt s3 \<noteq> filt s2"
  shows "(\<forall>s a. filt (dispatch a s) \<noteq> filt s \<longrightarrow>
            debounce (dispatch a s) = Some (clock s + 300, filt (dispatch a s))
            \<and> issued (dispatch a s) = issued s
            \<and> (\<forall>T. issued (advance T (dispatch a s))
                 = (if clock s + 300 \<le> T
                    then issued s @ [(clock s + 300, fetch_query (filt (dispatch a s)))]
                    else issued s))
            \<and> (\<forall>es T. no_change es (dispatch a s) \<longrightarrow>
                 issued (advance T (run es (dispatch a s)))
                   = (if clock s + 300 \<le> clock (advance T (run es (dispatch a s)))
                      then issued s @ [(clock s + 300, fetch_query (filt (dispatch a s)))]
                      else issued s)
                 \<and> debounce (advance T (run es (dispatch a s)))
                   = (if clock s + 300 \<le> clock (advance T (run es (dispatch a s)))
                      then None else Some (clock s + 300, filt (dispatch a s)))
                 \<and> T \<le> clock (advance T (run es (dispatch a s)))))
       \<and> (\<forall>s a t d f. debounce s = Some (d, f) \<and> clock s \<le> t \<and> t < d
              \<and> filt (occurs t (User a) s) \<noteq> filt s \<longrightarrow>
            issued (occurs t (User a) s) = issued s
            \<and> debounce (occurs t (User a) s) = Some (t + 300, filt (occurs t (User a) s))
            \<and> (\<forall>T. issued (advance T (occurs t (User a) s))
                 = (if t + 300 \<le> T
                    then issued s @ [(t + 300, fetch_query (filt (occurs t (User a) s)))]
                    else issued s)))
       \<and> debounce s1 = Some (300, filt s1)
       \<and> debounce s2 = Some (350, filt s2)
       \<and> debounce s3 = Some (400, filt s3)
       \<and> issued s3 = issued s0
       \<and> (\<forall>T. issued (advance T s3)
             = (if 400 \<le> T then issued s0 @ [(400, fetch_query (filt s3))] else issued s0))
       \<and> (\<forall>T. 400 \<le> T \<longrightarrow> debounce (advance T s3) = None)
       \<and> (\<forall>es T. no_change es s3 \<longrightarrow>
             issued (advance T (run es s3))
               = (if 400 \<le> clock (advance T (run es s3))
                  then issued s0 @ [(400, fetch_query (filt s3))] else issued s0)
             \<and> debounce (advance T (run es s3))
               = (if 400 \<le> clock (advance T (run es s3)) then None else Some (400, filt s3))
             \<and> T \<le> clock (advance T (run es s3)))"
proof -
  have A: "\<forall>s a. filt (dispatch a s) \<noteq> filt s \<longrightarrow>
            debounce (dispatch a s) = Some (clock s + 300, filt (dispatch a s))
            \<and> issued (dispatch a s) = issued s
            \<and> (\<forall>T. issued (advance T (dispatch a s))
                 = (if clock s + 300 \<le> T
                    then issued s @ [(clock s + 300, fetch_query (filt (dispatch a s)))]
                    else issued s))
            \<and> (\<forall>es T. no_change es (dispatch a s) \<longrightarrow>
                 issued (advance T (run es (dispatch a s)))
                   = (if clock s + 300 \<le> clock (advance T (run es (dispatch a s)))
                      then issued s @ [(clock s + 300, fetch_query (filt (dispatch a s)))]
                      else issued s)
                 \<and> debounce (advance T (run es (dispatch a s)))
                   = (if clock s + 300 \<le> clock (advance T (run es (dispatch a s)))
                      then None else Some (clock s + 300, filt (dispatch a s)))
                 \<and> T \<le> clock (advance T (run es (dispatch a s))))"
  proof (intro allI impI)
    fix s :: home and a
    assume c: "filt (dispatch a s) \<noteq> filt s"
    then have d: "debounce (dispatch a s) = Some (clock s + 300, filt (dispatch a s))"
      by (rule dispatch_schedules)
    have lt: "clock (dispatch a s) < clock s + 300"
      by (simp add: dispatch_frame)
    have "\<And>es T. no_change es (dispatch a s) \<Longrightarrow>
                 issued (advance T (run es (dispatch a s)))
                   = (if clock s + 300 \<le> clock (advance T (run es (dispatch a s)))
                      then issued s @ [(clock s + 300, fetch_query (filt (dispatch a s)))]
                      else issued s)
                 \<and> debounce (advance T (run es (dispatch a s)))
                   = (if clock s + 300 \<le> clock (advance T (run es (dispatch a s)))
                      then None else Some (clock s + 300, filt (dispatch a s)))
                 \<and> T \<le> clock (advance T (run es (dispatch a s)))"
      using one_fetch [OF d lt] by (simp add: dispatch_frame)
    with advance_pending [OF d lt] d
    show "debounce (dispatch a s) = Some (clock s + 300, filt (dispatch a s))
            \<and> issued (dispatch a s) = issued s
            \<and> (\<forall>T. issued (advance T (dispatch a s))
                 = (if clock s + 300 \<le> T
                    then issued s @ [(clock s + 300, fetch_query (filt (dispatch a s)))]
                    else issued s))
            \<and> (\<forall>es T. no_change es (dispatch a s) \<longrightarrow>
                 issued (advance T (run es (dispatch a s)))
                   = (if clock s + 300 \<le> clock (advance T (run es (dispatch a s)))
                      then issued s @ [(clock s + 300, fetch_query (filt (dispatch a s)))]
                      else issued s)
                 \<and> debounce (advance T (run es (dispatch a s)))
                   = (if clock s + 300 \<le> clock (advance T (run es (dispatch a s)))
                      then None else Some (clock s + 300, filt (dispatch a s)))
                 \<and> T \<le> clock (advance T (run es (dispatch a s))))"
      by (simp add: dispatch_frame)
  qed
  have B: "\<forall>s a t d f. debounce s = Some (d, f) \<and> clock s \<le> t \<and> t < d
              \<and> filt (occurs t (User a) s) \<noteq> filt s \<longrightarrow>
            issued (occurs t (User a) s) = issued s
            \<and> debounce (occurs t (User a) s) = Some (t + 300, filt (occurs t (User a) s))
            \<and> (\<forall>T. issued (advance T (occurs t (User a) s))
                 = (if t + 300 \<le> T
                    then issued s @ [(t + 300, fetch_query (filt (occurs t (User a) s)))]
                    else issued s))"
  proof (intro allI impI, elim conjE)
    fix s :: home and a t d f
    assume p: "debounce s = Some (d, f)" and t: "clock s \<le> t" and e: "t < d"
      and c: "filt (occurs t (User a) s) \<noteq> filt s"
    from p e have q: "\<And>d' f'. debounce s = Some (d', f') \<Longrightarrow> t < d'" by simp
    note r = change_restarts [OF t q c]
    from r(2,3) have "\<forall>T. issued (advance T (occurs t (User a) s))
                 = (if t + 300 \<le> T
                    then issued (occurs t (User a) s)
                         @ [(t + 300, fetch_query (filt (occurs t (User a) s)))]
                    else issued (occurs t (User a) s))"
      by (simp add: advance_pending)
    with r show "issued (occurs t (User a) s) = issued s
            \<and> debounce (occurs t (User a) s) = Some (t + 300, filt (occurs t (User a) s))
            \<and> (\<forall>T. issued (advance T (occurs t (User a) s))
                 = (if t + 300 \<le> T
                    then issued s @ [(t + 300, fetch_query (filt (occurs t (User a) s)))]
                    else issued s))"
      by simp
  qed
  have q0: "\<And>d f. debounce s0 = Some (d, f) \<Longrightarrow> 0 < d"
    using quiet by (metis gr0I)
  from start have t0: "clock s0 \<le> 0" by simp
  note r1 = change_restarts [OF t0 q0 c1 [unfolded s1], folded s1]
  from r1 have t1: "clock s1 \<le> 50" and q1: "\<And>d f. debounce s1 = Some (d, f) \<Longrightarrow> 50 < d"
    by simp_all
  note r2 = change_restarts [OF t1 q1 c2 [unfolded s2], folded s2]
  from r2 have t2: "clock s2 \<le> 100" and q2: "\<And>d f. debounce s2 = Some (d, f) \<Longrightarrow> 100 < d"
    by simp_all
  note r3 = change_restarts [OF t2 q2 c3 [unfolded s3], folded s3]
  from r3 have C: "\<forall>T. issued (advance T s3)
             = (if 400 \<le> T then issued s3 @ [(400, fetch_query (filt s3))] else issued s3)"
    by (simp add: advance_pending)
  from r1 r2 r3 have D: "debounce s1 = Some (300, filt s1) \<and> debounce s2 = Some (350, filt s2)
      \<and> debounce s3 = Some (400, filt s3) \<and> issued s3 = issued s0"
    by simp
  from r1 r2 r3 have p3: "debounce s3 = Some (400, filt s3)" and k3: "clock s3 < 400"
    and i3: "issued s3 = issued s0"
    by simp_all
  have E: "\<forall>T. 400 \<le> T \<longrightarrow> debounce (advance T s3) = None"
    by (simp add: advance_while_pending [OF p3 k3])
  have F: "\<forall>es T. no_change es s3 \<longrightarrow>
             issued (advance T (run es s3))
               = (if 400 \<le> clock (advance T (run es s3))
                  then issued s0 @ [(400, fetch_query (filt s3))] else issued s0)
             \<and> debounce (advance T (run es s3))
               = (if 400 \<le> clock (advance T (run es s3)) then None else Some (400, filt s3))
             \<and> T \<le> clock (advance T (run es s3))"
  proof (intro allI impI)
    fix es T
    assume "no_change es s3"
    from one_fetch [OF p3 k3 this, of T] i3
    show "issued (advance T (run es s3))
               = (if 400 \<le> clock (advance T (run es s3))
                  then issued s0 @ [(400, fetch_query (filt s3))] else issued s0)
             \<and> debounce (advance T (run es s3))
               = (if 400 \<le> clock (advance T (run es s3)) then None else Some (400, filt s3))
             \<and> T \<le> clock (advance T (run es s3))"
      by simp
  qed
  from C i3 have C': "\<forall>T. issued (advance T s3)
             = (if 400 \<le> T then issued s0 @ [(400, fetch_query (filt s3))] else issued s0)"
    by simp
  from A B C' D E F show ?thesis
    by blast
qed


lemmas mount_eval = mount_def initial_def fetchProducts_def setLoading_def fetch_query_def
  truthy_def Let_def

theorem debounce_refetch_witness:
  "clock (mount 0) = 0
   \<and> filt typed_s \<noteq> filt (mount 0) \<and> filt typed_sa \<noteq> filt typed_s
   \<and> filt typed_saw \<noteq> filt typed_sa
   \<and> searchQuery (filt typed_saw) = ''saw''
   \<and> issued (advance 399 typed_saw)
       = [(0, [(''min_price'', Num (Fin 0)), (''max_price'', Num (Fin 10000)),
               (''sort_by'', Str ''newest'')])]
   \<and> issued (advance 400 typed_saw)
       = [(0, [(''min_price'', Num (Fin 0)), (''max_price'', Num (Fin 10000)),
               (''sort_by'', Str ''newest'')]),
          (400, [(''search'', Str ''saw''), (''min_price'', Num (Fin 0)),
                 (''max_price'', Num (Fin 10000)), (''sort_by'', Str ''newest'')])]
   \<and> debounce (advance 400 typed_saw) = None
   \<and> no_change afterwards typed_saw
   \<and> clock (advance 1000 (run afterwards typed_saw)) = 1000
   \<and> issued (advance 1000 (run afterwards typed_saw))
       = [(0, [(''min_price'', Num (Fin 0)), (''max_price'', Num (Fin 10000)),
               (''sort_by'', Str ''newest'')]),
          (400, [(''search'', Str ''saw''), (''min_price'', Num (Fin 0)),
                 (''max_price'', Num (Fin 10000)), (''sort_by'', Str ''newest'')])]
   \<and> debounce (advance 1000 (run afterwards typed_saw)) = None"
proof -
  have st: "clock (mount 0) = 0"
    by (simp add: mount_eval)
  have qu: "\<And>f. debounce (mount 0) \<noteq> Some (0, f)"
    by (simp add: mount_eval)
  have f1: "filt typed_s = (filt (mount 0))\<lparr>searchQuery := ''s''\<rparr>"
    by (simp add: typed_s_def occurs_def filt_dispatch filt_advance setSearchQuery_def)
  have f2: "filt typed_sa = (filt (mount 0))\<lparr>searchQuery := ''sa''\<rparr>"
    by (simp add: typed_sa_def occurs_def filt_dispatch filt_advance setSearchQuery_def f1)
  have f3: "filt typed_saw = (filt (mount 0))\<lparr>searchQuery := ''saw''\<rparr>"
    by (simp add: typed_saw_def occurs_def filt_dispatch filt_advance setSearchQuery_def f2)
  have f0: "filt (mount 0) = \<lparr>searchQuery = [], selectedCategory = None,
              priceRange = \<lparr>ident = 0, elem0 = Fin 0, elem1 = Fin 10000\<rparr>,
              stockStatus = None, sortBy = ''newest''\<rparr>"
    by (simp add: mount_eval)
  have c1: "filt typed_s \<noteq> filt (mount 0)" by (simp add: f1 f0)
  have c2: "filt typed_sa \<noteq> filt typed_s" by (simp add: f1 f2 f0)
  have c3: "filt typed_saw \<noteq> filt typed_sa" by (simp add: f2 f3 f0)
  have i0: "issued (mount 0) = [(0, [(''min_price'', Num (Fin 0)),
      (''max_price'', Num (Fin 10000)), (''sort_by'', Str ''newest'')])]"
    by (simp add: mount_eval)
  have q3: "fetch_query (filt typed_saw) = [(''search'', Str ''saw''),
      (''min_price'', Num (Fin 0)), (''max_price'', Num (Fin 10000)),
      (''sort_by'', Str ''newest'')]"
    by (simp add: f3 f0 fetch_query_def truthy_def)
  have nc: "no_change afterwards typed_saw"
    by (simp add: afterwards_def filt_occurs_answer filt_occurs_user filt_advance
        setStockStatus_def f3 f0)
  have ck: "clock (advance 1000 (run afterwards typed_saw)) = 1000"
    by (simp add: afterwards_def clock_advance_max clock_occurs typed_saw_def typed_sa_def
        typed_s_def st)
  note inst = debounce_refetch [OF st qu typed_s_def c1 typed_sa_def c2 typed_saw_def c3]
  from inst
  have "\<forall>T. issued (advance T typed_saw)
             = (if 400 \<le> T then issued (mount 0) @ [(400, fetch_query (filt typed_saw))]
                else issued (mount 0))"
    by blast
  then have a: "issued (advance 399 typed_saw) = issued (mount 0)"
    and b: "issued (advance 400 typed_saw) = issued (mount 0) @ [(400, fetch_query (filt typed_saw))]"
    by simp_all
  from inst have "\<forall>T. 400 \<le> T \<longrightarrow> debounce (advance T typed_saw) = None"
    by blast
  then have g: "debounce (advance 400 typed_saw) = None"
    by simp
  from inst have "\<forall>es T. no_change es typed_saw \<longrightarrow>
             issued (advance T (run es typed_saw))
               = (if 400 \<le> clock (advance T (run es typed_saw))
                  then issued (mount 0) @ [(400, fetch_query (filt typed_saw))]
                  else issued (mount 0))
             \<and> debounce (advance T (run es typed_saw))
               = (if 400 \<le> clock (advance T (run es typed_saw)) then None
                  else Some (400, filt typed_saw))
             \<and> T \<le> clock (advance T (run es typed_saw))"
    by blast
  with nc have "issued (advance 1000 (run afterwards typed_saw))
               = (if 400 \<le> clock (advance 1000 (run afterwards typed_saw))
                  then issued (mount 0) @ [(400, fetch_query (filt typed_saw))]
                  else issued (mount 0))
             \<and> debounce (advance 1000 (run afterwards typed_saw))
               = (if 400 \<le> clock (advance 1000 (run afterwards typed_saw)) then None
                  else Some (400, filt typed_saw))"
    by blast
  then have h: "issued (advance 1000 (run afterwards typed_saw))
                  = issued (mount 0) @ [(400, fetch_query (filt typed_saw))]"
    and j: "debounce (advance 1000 (run afterwards typed_saw)) = None"
    by (simp_all add: ck)
  have sq: "searchQuery (filt typed_saw) = ''saw''"
    by (simp add: f3)
  from st c1 c2 c3 sq a b g nc ck h j show ?thesis
    by (simp add: i0 q3)
qed

section \<open>Reset\<close>

lemma next_ident_advance: "next_ident (advance t s) = next_ident s"
  by (simp add: advance_def fetchProducts_def setLoading_def Let_def split: option.splits)

lemma next_ident_settle: "next_ident (settle rid r s) = next_ident s"
  by (simp add: settle_def setLoading_def setProducts_def Let_def split: response.splits)

lemma next_ident_dispatch: "next_ident (dispatch a s) = next_ident (handler a s)"
  by (simp add: dispatch_def Let_def)

lemma fresh_handler: "fresh s \<Longrightarrow> fresh (handler a s)"
  by (cases a) (auto simp: fresh_def setters Let_def)

lemma fresh_reachable: "reachable s \<Longrightarrow> fresh s"
proof (induction rule: reachable.induct)
  case (reach_mount t)
  show ?case
    by (simp add: fresh_def mount_eval)
next
  case (reach_event s t e)
  then have "fresh (advance t s)"
    by (simp add: fresh_def filt_advance next_ident_advance)
  then show ?case
    by (cases e) (simp_all add: occurs_def fresh_def filt_dispatch next_ident_dispatch
        filt_settle next_ident_settle fresh_handler [unfolded fresh_def])
next
  case (reach_wait s t)
  then show ?case
    by (simp add: fresh_def filt_advance next_ident_advance)
qed

lemma filt_reset:
  "filt (resetFilters s) = \<lparr>searchQuery = [], selectedCategory = None,
      priceRange = \<lparr>ident = next_ident s, elem0 = Fin 0, elem1 = Fin 10000\<rparr>,
      stockStatus = None, sortBy = ''newest''\<rparr>"
  by (simp add: setters Let_def)

text \<open>
  C3.  In every state the page can reach, the reset handler sets the category to null,
  the price range to a new array \<open>[0, 10000]\<close>, the stock filter to null, the sort
  order to \<^verbatim>\<open>newest\<close> and the search text to the empty string; it sends nothing
  itself and leaves one timeout, so that, with no further action, exactly one fetch
  follows, 300 later, with the default parameters.  The timeout that has fired is gone:
  whatever run of answers and of actions that change no filter value follows the reset,
  and however long the page waits after it, the log of requests is the log before the
  reset with this one fetch added once the due time has been reached, and no timeout is
  then pending.
\<close>

theorem reset_refetches_once:
  assumes "reachable s"
  shows "filt (dispatch ResetButton s) = \<lparr>searchQuery = [], selectedCategory = None,
            priceRange = \<lparr>ident = next_ident s, elem0 = Fin 0, elem1 = Fin 10000\<rparr>,
            stockStatus = None, sortBy = ''newest''\<rparr>
       \<and> debounce (dispatch ResetButton s) = Some (clock s + 300, filt (dispatch ResetButton s))
       \<and> issued (dispatch ResetButton s) = issued s
       \<and> (\<forall>T. issued (advance T (dispatch ResetButton s))
             = (if clock s + 300 \<le> T
                then issued s @ [(clock s + 300, [(''min_price'', Num (Fin 0)),
                       (''max_price'', Num (Fin 10000)), (''sort_by'', Str ''newest'')])]
                else issued s))
       \<and> (\<forall>T. clock s + 300 \<le> T \<longrightarrow> debounce (advance T (dispatch ResetButton s)) = None)
       \<and> (\<forall>es T. no_change es (dispatch ResetButton s) \<longrightarrow>
             issued (advance T (run es (dispatch ResetButton s)))
               = (if clock s + 300 \<le> clock (advance T (run es (dispatch ResetButton s)))
                  then issued s @ [(clock s + 300, [(''min_price'', Num (Fin 0)),
                         (''max_price'', Num (Fin 10000)), (''sort_by'', Str ''newest'')])]
                  else issued s)
             \<and> debounce (advance T (run es (dispatch ResetButton s)))
               = (if clock s + 300 \<le> clock (advance T (run es (dispatch ResetButton s)))
                  then None else Some (clock s + 300, filt (dispatch ResetButton s)))
             \<and> T \<le> clock (advance T (run es (dispatch ResetButton s))))"
proof -
  from assms have "ident (priceRange (filt s)) < next_ident s"
    using fresh_reachable by (simp add: fresh_def)
  have f: "filt (dispatch ResetButton s) = \<lparr>searchQuery = [], selectedCategory = None,
            priceRange = \<lparr>ident = next_ident s, elem0 = Fin 0, elem1 = Fin 10000\<rparr>,
            stockStatus = None, sortBy = ''newest''\<rparr>"
    by (simp add: filt_dispatch filt_reset)
  have "ident (priceRange (filt (dispatch ResetButton s))) \<noteq> ident (priceRange (filt s))"
    using \<open>ident (priceRange (filt s)) < next_ident s\<close> by (simp add: f)
  then have ch: "filt (dispatch ResetButton s) \<noteq> filt s"
    by auto
  then have d: "debounce (dispatch ResetButton s)
      = Some (clock s + 300, filt (dispatch ResetButton s))"
    by (rule dispatch_schedules)
  have i: "issued (dispatch ResetButton s) = issued s"
    and c: "clock (dispatch ResetButton s) = clock s"
    by (simp_all add: dispatch_frame)
  have q: "fetch_query (filt (dispatch ResetButton s)) = [(''min_price'', Num (Fin 0)),
                       (''max_price'', Num (Fin 10000)), (''sort_by'', Str ''newest'')]"
    by (simp add: f fetch_query_def truthy_def)
  have lt: "clock (dispatch ResetButton s) < clock s + 300"
    by (simp add: c)
  have once: "\<forall>T. issued (advance T (dispatch ResetButton s))
             = (if clock s + 300 \<le> T
                then issued s @ [(clock s + 300, [(''min_price'', Num (Fin 0)),
                       (''max_price'', Num (Fin 10000)), (''sort_by'', Str ''newest'')])]
                else issued s)"
    using advance_pending [OF d lt] i by (simp add: q)
  have gone: "\<forall>T. clock s + 300 \<le> T \<longrightarrow> debounce (advance T (dispatch ResetButton s)) = None"
    by (simp add: advance_while_pending [OF d lt])
  have later: "\<forall>es T. no_change es (dispatch ResetButton s) \<longrightarrow>
             issued (advance T (run es (dispatch ResetButton s)))
               = (if clock s + 300 \<le> clock (advance T (run es (dispatch ResetButton s)))
                  then issued s @ [(clock s + 300, [(''min_price'', Num (Fin 0)),
                         (''max_price'', Num (Fin 10000)), (''sort_by'', Str ''newest'')])]
                  else issued s)
             \<and> debounce (advance T (run es (dispatch ResetButton s)))
               = (if clock s + 300 \<le> clock (advance T (run es (dispatch ResetButton s)))
                  then None else Some (clock s + 300, filt (dispatch ResetButton s)))
             \<and> T \<le> clock (advance T (run es (dispatch ResetButton s)))"
  proof (intro allI impI)
    fix es T
    assume "no_change es (dispatch ResetButton s)"
    from one_fetch [OF d lt this, of T]
    show "issued (advance T (run es (dispatch ResetButton s)))
               = (if clock s + 300 \<le> clock (advance T (run es (dispatch ResetButton s)))
                  then issued s @ [(clock s + 300, [(''min_price'', Num (Fin 0)),
                         (''max_price'', Num (Fin 10000)), (''sort_by'', Str ''newest'')])]
                  else issued s)
             \<and> debounce (advance T (run es (dispatch ResetButton s)))
               = (if clock s + 300 \<le> clock (advance T (run es (dispatch ResetButton s)))
                  then None else Some (clock s + 300, filt (dispatch ResetButton s)))
             \<and> T \<le> clock (advance T (run es (dispatch ResetButton s)))"
      by (simp only: i q)
  qed
  from f d i once gone later show ?thesis
    by blast
qed


theorem reset_refetches_once_witness:
  "reachable narrowed
   \<and> filt narrowed = \<lparr>searchQuery = ''saw'', selectedCategory = None,
            priceRange = \<lparr>ident = 0, elem0 = Fin 0, elem1 = Fin 10000\<rparr>,
            stockStatus = Some ''low_stock'', sortBy = ''newest''\<rparr>
   \<and> debounce narrowed = Some (900, filt narrowed)
   \<and> issued narrowed
       = [(0, [(''min_price'', Num (Fin 0)), (''max_price'', Num (Fin 10000)),
               (''sort_by'', Str ''newest'')]),
          (300, [(''min_price'', Num (Fin 0)), (''max_price'', Num (Fin 10000)),
                 (''sort_by'', Str ''newest'')])]
   \<and> filt (dispatch ResetButton narrowed) = \<lparr>searchQuery = [], selectedCategory = None,
            priceRange = \<lparr>ident = 1, elem0 = Fin 0, elem1 = Fin 10000\<rparr>,
            stockStatus = None, sortBy = ''newest''\<rparr>
   \<and> debounce (dispatch ResetButton narrowed)
       = Some (1000, filt (dispatch ResetButton narrowed))
   \<and> issued (advance 999 (dispatch ResetButton narrowed)) = issued narrowed
   \<and> issued (advance 1000 (dispatch ResetButton narrowed))
       = issued narrowed @ [(1000, [(''min_price'', Num (Fin 0)),
                       (''max_price'', Num (Fin 10000)), (''sort_by'', Str ''newest'')])]
   \<and> debounce (advance 1000 (dispatch ResetButton narrowed)) = None
   \<and> no_change after_reset (dispatch ResetButton narrowed)
   \<and> clock (advance 2000 (run after_reset (dispatch ResetButton narrowed))) = 2000
   \<and> issued (advance 2000 (run after_reset (dispatch ResetButton narrowed)))
       = issued narrowed @ [(1000, [(''min_price'', Num (Fin 0)),
                       (''max_price'', Num (Fin 10000)), (''sort_by'', Str ''newest'')])]
   \<and> debounce (advance 2000 (run after_reset (dispatch ResetButton narrowed))) = None"
proof -
  have c1: "clock (mount 0) \<le> 500"
    by (simp add: mount_eval)
  have c2: "clock (occurs 500 (User (SearchInput ''saw'')) (mount 0)) \<le> 600"
    by (simp add: clock_occurs mount_eval)
  have c3: "clock (occurs 600 (User StockLowStock)
                 (occurs 500 (User (SearchInput ''saw'')) (mount 0))) \<le> 700"
    by (simp add: clock_occurs mount_eval)
  have r: "reachable narrowed"
    unfolding narrowed_def
    by (rule reach_wait [OF reach_event [OF reach_event [OF reach_mount c1] c2] c3])
  have k: "clock narrowed = 700"
    by (simp add: narrowed_def clock_advance_max clock_occurs mount_eval)
  have n: "next_ident narrowed = 1"
    by (simp add: narrowed_def occurs_def next_ident_advance next_ident_dispatch
        setSearchQuery_def setStockStatus_def mount_eval)
  have f: "filt narrowed = \<lparr>searchQuery = ''saw'', selectedCategory = None,
            priceRange = \<lparr>ident = 0, elem0 = Fin 0, elem1 = Fin 10000\<rparr>,
            stockStatus = Some ''low_stock'', sortBy = ''newest''\<rparr>"
    by (simp add: narrowed_def filt_advance filt_occurs_user setSearchQuery_def
        setStockStatus_def mount_eval)
  have p: "debounce narrowed = Some (900, filt narrowed)"
    unfolding f
    by (simp add: narrowed_def occurs_def advance_def dispatch_def setSearchQuery_def
        setStockStatus_def mount_eval)
  have l: "issued narrowed
       = [(0, [(''min_price'', Num (Fin 0)), (''max_price'', Num (Fin 10000)),
               (''sort_by'', Str ''newest'')]),
          (300, [(''min_price'', Num (Fin 0)), (''max_price'', Num (Fin 10000)),
                 (''sort_by'', Str ''newest'')])]"
    by (simp add: narrowed_def occurs_def advance_def dispatch_def setSearchQuery_def
        setStockStatus_def mount_eval)
  have nc: "no_change after_reset (dispatch ResetButton narrowed)"
    by (simp add: after_reset_def filt_occurs_answer filt_occurs_user filt_advance
        minPriceChange_def isNaN_def)
  have ck: "clock (advance 2000 (run after_reset (dispatch ResetButton narrowed))) = 2000"
    by (simp add: after_reset_def clock_advance_max clock_occurs dispatch_frame k)
  note inst = reset_refetches_once [OF r, unfolded k n]
  from inst have a: "filt (dispatch ResetButton narrowed) = \<lparr>searchQuery = [],
            selectedCategory = None,
            priceRange = \<lparr>ident = 1, elem0 = Fin 0, elem1 = Fin 10000\<rparr>,
            stockStatus = None, sortBy = ''newest''\<rparr>"
    and b: "debounce (dispatch ResetButton narrowed)
       = Some (700 + 300, filt (dispatch ResetButton narrowed))"
    by blast+
  from inst have "\<forall>T. issued (advance T (dispatch ResetButton narrowed))
             = (if 700 + 300 \<le> T
                then issued narrowed @ [(700 + 300, [(''min_price'', Num (Fin 0)),
                       (''max_price'', Num (Fin 10000)), (''sort_by'', Str ''newest'')])]
                else issued narrowed)"
    by blast
  then have d: "issued (advance 999 (dispatch ResetButton narrowed)) = issued narrowed"
    and e: "issued (advance 1000 (dispatch ResetButton narrowed))
       = issued narrowed @ [(1000, [(''min_price'', Num (Fin 0)),
                       (''max_price'', Num (Fin 10000)), (''sort_by'', Str ''newest'')])]"
    by simp_all
  from inst have "\<forall>T. 700 + 300 \<le> T \<longrightarrow>
      debounce (advance T (dispatch ResetButton narrowed)) = None"
    by blast
  then have g: "debounce (advance 1000 (dispatch ResetButton narrowed)) = None"
    by simp
  from inst have "\<forall>es T. no_change es (dispatch ResetButton narrowed) \<longrightarrow>
             issued (advance T (run es (dispatch ResetButton narrowed)))
               = (if 700 + 300 \<le> clock (advance T (run es (dispatch ResetButton narrowed)))
                  then issued narrowed @ [(700 + 300, [(''min_price'', Num (Fin 0)),
                         (''max_price'', Num (Fin 10000)), (''sort_by'', Str ''newest'')])]
                  else issued narrowed)
             \<and> debounce (advance T (run es (dispatch ResetButton narrowed)))
               = (if 700 + 300 \<le> clock (advance T (run es (dispatch ResetButton narrowed)))
                  then None else Some (700 + 300, filt (dispatch ResetButton narrowed)))
             \<and> T \<le> clock (advance T (run es (dispatch ResetButton narrowed)))"
    by blast
  with nc have "issued (advance 2000 (run after_reset (dispatch ResetButton narrowed)))
               = (if 700 + 300
                     \<le> clock (advance 2000 (run after_reset (dispatch ResetButton narrowed)))
                  then issued narrowed @ [(700 + 300, [(''min_price'', Num (Fin 0)),
                         (''max_price'', Num (Fin 10000)), (''sort_by'', Str ''newest'')])]
                  else issued narrowed)
             \<and> debounce (advance 2000 (run after_reset (dispatch ResetButton narrowed)))
               = (if 700 + 300
                     \<le> clock (advance 2000 (run after_reset (dispatch ResetButton narrowed)))
                  then None else Some (700 + 300, filt (dispatch ResetButton narrowed)))"
    by blast
  then have h: "issued (advance 2000 (run after_reset (dispatch ResetButton narrowed)))
       = issued narrowed @ [(1000, [(''min_price'', Num (Fin 0)),
                       (''max_price'', Num (Fin 10000)), (''sort_by'', Str ''newest'')])]"
    and j: "debounce (advance 2000 (run after_reset (dispatch ResetButton narrowed))) = None"
    by (simp_all add: ck)
  from b have b': "debounce (dispatch ResetButton narrowed)
       = Some (1000, filt (dispatch ResetButton narrowed))"
    by simp
  from r f p l a b' d e g nc ck h j show ?thesis
    by blast
qed

section \<open>Responses that arrive out of order\<close>

lemma products_advance: "products (advance t s) = products s"
  by (simp add: advance_def fetchProducts_def setLoading_def Let_def split: option.splits)

lemma inflight_advance:
  "rid \<in> fst ` set (inflight s) \<Longrightarrow> rid \<in> fst ` set (inflight (advance t s))"
  by (auto simp: advance_def fetchProducts_def setLoading_def Let_def split: option.splits)

lemma settle_resolved:
  "rid \<in> fst ` set (inflight s) \<Longrightarrow> products (settle rid (Resolved d) s) = d"
  by (simp add: settle_def setLoading_def setProducts_def Let_def)

lemma inflight_settle_other:
  "r \<in> fst ` set (inflight s) \<Longrightarrow> r \<noteq> rid \<Longrightarrow> r \<in> fst ` set (inflight (settle rid x s))"
  by (auto simp: settle_def setLoading_def setProducts_def Let_def split: response.splits)

lemma answer_resolved:
  "rid \<in> fst ` set (inflight s) \<Longrightarrow> products (occurs t (Answer rid (Resolved d)) s) = d"
  by (simp add: occurs_def settle_resolved inflight_advance)

lemma answer_keeps_other:
  "r \<in> fst ` set (inflight s) \<Longrightarrow> r \<noteq> rid \<Longrightarrow>
     r \<in> fst ` set (inflight (occurs t (Answer rid x) s))"
  by (simp add: occurs_def inflight_settle_other inflight_advance)

text \<open>
  C2, as amended.  The page does not tell the answers to its requests apart.  When two
  requests are in flight and both are answered with data, the product list after both
  answers is the data of the answer that arrived last: the result of the newer request
  when the answers arrive in the order of the requests, the result of the older request
  when its answer arrives last.
\<close>

theorem last_response_wins:
  assumes "older \<in> fst ` set (inflight s)" and "newer \<in> fst ` set (inflight s)"
    and "older < newer"
  shows "products (occurs t2 (Answer newer (Resolved new_data))
                    (occurs t1 (Answer older (Resolved old_data)) s)) = new_data
       \<and> products (occurs t2 (Answer older (Resolved old_data))
                    (occurs t1 (Answer newer (Resolved new_data)) s)) = old_data"
  using assms by (simp add: answer_resolved answer_keeps_other)

lemma two_in_flight_eval:
  "inflight two_in_flight =
     [(0, [(''min_price'', Num (Fin 0)), (''max_price'', Num (Fin 10000)),
           (''sort_by'', Str ''newest'')]),
      (1, [(''search'', Str ''saw''), (''min_price'', Num (Fin 0)),
           (''max_price'', Num (Fin 10000)), (''sort_by'', Str ''newest'')])]"
  by (simp add: two_in_flight_def occurs_def advance_def dispatch_def setSearchQuery_def
      mount_eval)

text \<open>
  C2, as stated, fails.  In the run \<open>stale_run\<close> the request of the mount (number 0) is
  still in flight when the debounced request with the search text (number 1) is sent.
  Request 1 is answered first, with the one matching product, and request 0 afterwards,
  with both products: the page ends up showing the answer of the older request.
\<close>

theorem stale_response_counterexample:
  "inflight two_in_flight =
     [(0, [(''min_price'', Num (Fin 0)), (''max_price'', Num (Fin 10000)),
           (''sort_by'', Str ''newest'')]),
      (1, [(''search'', Str ''saw''), (''min_price'', Num (Fin 0)),
           (''max_price'', Num (Fin 10000)), (''sort_by'', Str ''newest'')])]
   \<and> products (occurs 450 (Answer 1 (Resolved [saw])) two_in_flight) = [saw]
   \<and> products stale_run = [hammer, saw]
   \<and> products stale_run \<noteq> [saw]"
proof -
  have a: "0 \<in> fst ` set (inflight two_in_flight)" and b: "1 \<in> fst ` set (inflight two_in_flight)"
    by (simp_all add: two_in_flight_eval)
  have 1: "products (occurs 450 (Answer 1 (Resolved [saw])) two_in_flight) = [saw]"
    using b by (rule answer_resolved)
  have "0 \<in> fst ` set (inflight (occurs 450 (Answer 1 (Resolved [saw])) two_in_flight))"
    using a by (rule answer_keeps_other) simp
  then have 2: "products stale_run = [hammer, saw]"
    unfolding stale_run_def by (rule answer_resolved)
  from 1 2 show ?thesis
    by (simp add: two_in_flight_eval)
qed

theorem last_response_wins_witness:
  "0 \<in> fst ` set (inflight two_in_flight) \<and> 1 \<in> fst ` set (inflight two_in_flight)
   \<and> (0::nat) < 1
   \<and> products (occurs 500 (Answer 1 (Resolved [saw]))
                (occurs 450 (Answer 0 (Resolved [hammer, saw])) two_in_flight)) = [saw]
   \<and> products (occurs 500 (Answer 0 (Resolved [hammer, saw]))
                (occurs 450 (Answer 1 (Resolved [saw])) two_in_flight)) = [hammer, saw]"
proof -
  have a: "0 \<in> fst ` set (inflight two_in_flight)" and b: "1 \<in> fst ` set (inflight two_in_flight)"
    by (simp_all add: two_in_flight_eval)
  have c: "(0::nat) < 1" by simp
  from last_response_wins [OF a b c] a b show ?thesis
    by simp
qed

end
